theory Spec2Isabelle
  imports Complex_Main "HOL-Library.Sublist"
begin

text \<open>
  Two adapters of a model-provider plugin are modelled and verified here: the chat
  completion client of \<^verbatim>\<open>models/minimax/models/llm/chat_completion.py\<close> and the text
  embedding client of
  \<^verbatim>\<open>models/huggingface_tei/models/text_embedding/text_embedding.py\<close>. Each source
  function is a HOL function of the same name; an exception is a value of type
  \<open>py_exception\<close> on the left of a sum; what a function does to the outside (the
  requests it makes, the state it leaves a collaborator in) is returned next to its
  outcome; the collaborators that are not in these two files (the HTTP helpers, the
  tokenizer, the JSON parser, the validating constructors of the framework) are
  parameters.
\<close>

section \<open>Python values and the operations the adapters apply to them\<close>

text \<open>
  Both adapters work on values decoded from JSON (\<^verbatim>\<open>json.loads\<close>,
  \<^verbatim>\<open>response.json()\<close>) and on the caller's \<^verbatim>\<open>model_parameters\<close> dictionary.
  A Python \<^verbatim>\<open>str\<close> is represented by its UTF-8 bytes (an Isabelle \<open>char\<close> is a
  byte), a \<^verbatim>\<open>dict\<close> by its items in insertion order (keys distinct), an
  \<^verbatim>\<open>int\<close> by an unbounded integer and a finite \<^verbatim>\<open>float\<close> by the rational it
  denotes. The two non-finite floats and NaN are outside the type.
\<close>

datatype json =
    JNull
  | JBool bool
  | JInt int
  | JFloat rat
  | JStr string
  | JArr "json list"
  | JObj "(string \<times> json) list"

text \<open>
  The exceptions of \<^verbatim>\<open>models/llm/errors.py\<close> that \<^verbatim>\<open>chat_completion.py\<close> raises,
  each with its argument; the one \<^verbatim>\<open>text_embedding.py\<close> raises; the built-in
  exceptions that arithmetic, subscripting, iterating, converting and decoding raise; the
  \<^verbatim>\<open>ValidationError\<close> of a validating constructor; and what else a collaborator may
  raise. Of the latter the embedding adapter tests one thing, whether it is an instance of
  \<^verbatim>\<open>RuntimeError\<close>: the instances are \<open>RuntimeError\<close> itself, its built-in
  subclasses \<open>NotImplementedError\<close> and \<open>RecursionError\<close>, each with the text
  \<^verbatim>\<open>str(e)\<close>, and \<open>RuntimeErrorSubclass\<close> for any other subclass, with the name of
  the class and that text. \<open>OtherException\<close>, with a description, is an exception of
  no class listed here, and not an instance of \<^verbatim>\<open>RuntimeError\<close>.
\<close>

datatype py_exception =
    InvalidAPIKeyError json
  | BadRequestError json
  | InternalServerError json
  | RateLimitReachedError json
  | InvalidAuthenticationError json
  | InsufficientAccountBalanceError json
  | InvokeServerUnavailableError string
  | KeyError json
  | TypeError
  | IndexError
  | AttributeError
  | ValueError
  | ZeroDivisionError
  | RuntimeError string
  | NotImplementedError string
  | RecursionError string
  | RuntimeErrorSubclass string string
  | ValidationError
  | JSONDecodeError
  | UnicodeDecodeError
  | OtherException string

text \<open>Sequencing of steps that may raise: the first exception ends the computation.\<close>

definition and_then :: "'e + 'a \<Rightarrow> ('a \<Rightarrow> 'e + 'b) \<Rightarrow> 'e + 'b" where
  "and_then r f = (case r of Inl e \<Rightarrow> Inl e | Inr v \<Rightarrow> f v)"

text \<open>\<^verbatim>\<open>x[key]\<close> for a string key: only a dict accepts it.\<close>

definition py_getitem :: "json \<Rightarrow> string \<Rightarrow> py_exception + json" where
  "py_getitem x k =
     (case x of
        JObj kvs \<Rightarrow> (case map_of kvs k of None \<Rightarrow> Inl (KeyError (JStr k)) | Some v \<Rightarrow> Inr v)
      | _ \<Rightarrow> Inl TypeError)"

text \<open>
  \<^verbatim>\<open>x[0]\<close>: the first element of a list; a dict decoded from JSON has string keys
  only, so \<open>0\<close> is never one of them. Of a non-empty string it is a string of one
  character, given here by the first byte: the adapter only subscripts it with a string
  key, which a string of any content rejects.
\<close>

definition py_getitem0 :: "json \<Rightarrow> py_exception + json" where
  "py_getitem0 x =
     (case x of
        JArr [] \<Rightarrow> Inl IndexError
      | JArr (v # _) \<Rightarrow> Inr v
      | JStr [] \<Rightarrow> Inl IndexError
      | JStr (c # _) \<Rightarrow> Inr (JStr [c])
      | JObj _ \<Rightarrow> Inl (KeyError (JInt 0))
      | _ \<Rightarrow> Inl TypeError)"

text \<open>\<^verbatim>\<open>key in x\<close> for a string key: dict membership, list membership, substring.\<close>

definition py_contains :: "string \<Rightarrow> json \<Rightarrow> py_exception + bool" where
  "py_contains k x =
     (case x of
        JObj kvs \<Rightarrow> Inr (map_of kvs k \<noteq> None)
      | JArr vs \<Rightarrow> Inr (JStr k \<in> set vs)
      | JStr s \<Rightarrow> Inr (sublist k s)
      | _ \<Rightarrow> Inl TypeError)"

text \<open>\<^verbatim>\<open>x != 0\<close>: numbers compare by value, \<^verbatim>\<open>False == 0\<close>, nothing else equals 0.\<close>

definition py_ne_zero :: "json \<Rightarrow> bool" where
  "py_ne_zero x =
     (case x of
        JInt n \<Rightarrow> n \<noteq> 0
      | JFloat r \<Rightarrow> r \<noteq> 0
      | JBool b \<Rightarrow> b
      | _ \<Rightarrow> True)"

text \<open>Truth value of a Python object, as \<^verbatim>\<open>if x:\<close> tests it.\<close>

definition py_truthy :: "json \<Rightarrow> bool" where
  "py_truthy x =
     (case x of
        JNull \<Rightarrow> False
      | JBool b \<Rightarrow> b
      | JInt n \<Rightarrow> n \<noteq> 0
      | JFloat r \<Rightarrow> r \<noteq> 0
      | JStr s \<Rightarrow> s \<noteq> []
      | JArr vs \<Rightarrow> vs \<noteq> []
      | JObj kvs \<Rightarrow> kvs \<noteq> [])"

text \<open>\<^verbatim>\<open>x.get(key, default)\<close>: a method of dicts only.\<close>

definition py_get :: "json \<Rightarrow> string \<Rightarrow> json \<Rightarrow> py_exception + json" where
  "py_get x k d =
     (case x of
        JObj kvs \<Rightarrow> (case map_of kvs k of None \<Rightarrow> Inr d | Some v \<Rightarrow> Inr v)
      | _ \<Rightarrow> Inl AttributeError)"

text \<open>
  The elements \<^verbatim>\<open>for c in x\<close> visits, which are also what \<^verbatim>\<open>len(x)\<close> counts:
  list elements, keys of a dict, characters of a string (given here byte by byte: the
  adapter tests the count against zero and subscripts the first element with a string
  key, so only the emptiness of the string matters).
\<close>

definition py_iter :: "json \<Rightarrow> py_exception + json list" where
  "py_iter x =
     (case x of
        JArr vs \<Rightarrow> Inr vs
      | JStr s \<Rightarrow> Inr (map (\<lambda>c. JStr [c]) s)
      | JObj kvs \<Rightarrow> Inr (map (\<lambda>kv. JStr (fst kv)) kvs)
      | _ \<Rightarrow> Inl TypeError)"

text \<open>\<^verbatim>\<open>isinstance(v, int)\<close> (\<^verbatim>\<open>bool\<close> is a subclass of \<^verbatim>\<open>int\<close>) and
  \<^verbatim>\<open>isinstance(v, float)\<close>.\<close>

definition isinstance_int :: "json \<Rightarrow> bool" where
  "isinstance_int v = (case v of JInt _ \<Rightarrow> True | JBool _ \<Rightarrow> True | _ \<Rightarrow> False)"

definition isinstance_float :: "json \<Rightarrow> bool" where
  "isinstance_float v = (case v of JFloat _ \<Rightarrow> True | _ \<Rightarrow> False)"

subsection \<open>String methods\<close>

text \<open>
  The characters \<^verbatim>\<open>str.strip()\<close> removes, each in its UTF-8 encoding: U+0009 to
  U+000D, U+001C to U+0020, U+0085, U+00A0, U+1680, U+2000 to U+200A, U+2028, U+2029,
  U+202F, U+205F and U+3000.
\<close>

definition py_whitespace :: "string list" where
  "py_whitespace =
     [[CHR 0x09], [CHR 0x0A], [CHR 0x0B], [CHR 0x0C], [CHR 0x0D],
      [CHR 0x1C], [CHR 0x1D], [CHR 0x1E], [CHR 0x1F], [CHR 0x20],
      [CHR 0xC2, CHR 0x85], [CHR 0xC2, CHR 0xA0],
      [CHR 0xE1, CHR 0x9A, CHR 0x80],
      [CHR 0xE2, CHR 0x80, CHR 0x80], [CHR 0xE2, CHR 0x80, CHR 0x81],
      [CHR 0xE2, CHR 0x80, CHR 0x82], [CHR 0xE2, CHR 0x80, CHR 0x83],
      [CHR 0xE2, CHR 0x80, CHR 0x84], [CHR 0xE2, CHR 0x80, CHR 0x85],
      [CHR 0xE2, CHR 0x80, CHR 0x86], [CHR 0xE2, CHR 0x80, CHR 0x87],
      [CHR 0xE2, CHR 0x80, CHR 0x88], [CHR 0xE2, CHR 0x80, CHR 0x89],
      [CHR 0xE2, CHR 0x80, CHR 0x8A],
      [CHR 0xE2, CHR 0x80, CHR 0xA8], [CHR 0xE2, CHR 0x80, CHR 0xA9],
      [CHR 0xE2, CHR 0x80, CHR 0xAF], [CHR 0xE2, CHR 0x81, CHR 0x9F],
      [CHR 0xE3, CHR 0x80, CHR 0x80]]"

text \<open>Remove, from the front of \<open>s\<close>, characters whose encoding is in \<open>ws\<close>.\<close>

function lstrip_with :: "string list \<Rightarrow> string \<Rightarrow> string" where
  "lstrip_with ws s =
     (case find (\<lambda>w. w \<noteq> [] \<and> prefix w s) ws of
        None \<Rightarrow> s
      | Some w \<Rightarrow> lstrip_with ws (drop (length w) s))"
  by pat_completeness auto
termination
proof (relation "measure (\<lambda>(ws, s). length s)")
  show "wf (measure (\<lambda>(ws, s). length s))"
    by simp
next
  fix ws :: "string list" and s w :: string
  assume "find (\<lambda>w. w \<noteq> [] \<and> prefix w s) ws = Some w"
  then have "w \<noteq> []" and "prefix w s"
    by (auto simp: find_Some_iff)
  then obtain t where "s = w @ t"
    by (auto simp: prefix_def)
  with \<open>w \<noteq> []\<close> show "((ws, drop (length w) s), (ws, s)) \<in> measure (\<lambda>(ws, s). length s)"
    by simp
qed

declare lstrip_with.simps [simp del]

definition py_strip :: "string \<Rightarrow> string" where
  "py_strip s = rev (lstrip_with (map rev py_whitespace) (rev (lstrip_with py_whitespace s)))"

text \<open>\<^verbatim>\<open>s.rstrip('/')\<close>: every trailing slash goes.\<close>

definition rstrip_slash :: "string \<Rightarrow> string" where
  "rstrip_slash s = rev (dropWhile (\<lambda>c. c = CHR ''/'') (rev s))"

section \<open>The chat-completion adapter (\<^verbatim>\<open>MinimaxChatCompletion\<close>)\<close>

subsection \<open>Messages\<close>

text \<open>
  Modelled from the spec: the enum \<^verbatim>\<open>MinimaxMessage.Role\<close> is declared in
  \<^verbatim>\<open>models/llm/types.py\<close>, which is not among the sources. The spec's data model
  lists the roles system, user and assistant.
\<close>

datatype role = SYSTEM | USER | ASSISTANT

text \<open>
  Modelled from the spec: the class \<^verbatim>\<open>MinimaxMessage\<close>, of the same absent file. The
  spec's data model gives a message a role, a content, an optional usage and an optional
  stop reason. The content is a \<^verbatim>\<open>str\<close> in the caller's messages and whatever the
  decoded record holds in the messages the adapter builds, so the record is polymorphic in
  it; usage and stop reason hold decoded values.
\<close>

record 'c minimax_message =
  role :: role
  content :: 'c
  usage :: "json option"
  stop_reason :: "json option"

text \<open>
  Modelled from the spec: the constructor \<^verbatim>\<open>MinimaxMessage(content, role)\<close>, which
  leaves the message without usage and without stop reason.
\<close>

definition MinimaxMessage :: "'c \<Rightarrow> role \<Rightarrow> 'c minimax_message" where
  "MinimaxMessage c r = \<lparr>role = r, content = c, usage = None, stop_reason = None\<rparr>"

subsection \<open>\<^verbatim>\<open>_handle_error\<close>\<close>

text \<open>The function has no normal return: its value is the exception it raises.\<close>

definition handle_error :: "int \<Rightarrow> json \<Rightarrow> py_exception" where
  "handle_error code msg =
     (if code \<in> {1000, 1001, 1013, 1027} then InternalServerError msg
      else if code \<in> {1002, 1039} then RateLimitReachedError msg
      else if code = 1004 then InvalidAuthenticationError msg
      else if code = 1008 then InsufficientAccountBalanceError msg
      else if code = 2013 then BadRequestError msg
      else InternalServerError msg)"

text \<open>
  The handlers call \<^verbatim>\<open>_handle_error\<close> with whatever \<^verbatim>\<open>status_code\<close> holds. A number
  is looked up by value (\<^verbatim>\<open>True == 1\<close>, \<^verbatim>\<open>1004.0 == 1004\<close>); \<^verbatim>\<open>None\<close> and strings
  equal no code of the table; a list or dict is unhashable, so the first
  \<^verbatim>\<open>code in {...}\<close> raises \<^verbatim>\<open>TypeError\<close>.
\<close>

definition handle_error_value :: "json \<Rightarrow> json \<Rightarrow> py_exception" where
  "handle_error_value code msg =
     (case code of
        JInt n \<Rightarrow> handle_error n msg
      | JBool b \<Rightarrow> handle_error (if b then 1 else 0) msg
      | JFloat r \<Rightarrow> (if of_int \<lfloor>r\<rfloor> = r then handle_error \<lfloor>r\<rfloor> msg else InternalServerError msg)
      | JNull \<Rightarrow> InternalServerError msg
      | JStr _ \<Rightarrow> InternalServerError msg
      | JArr _ \<Rightarrow> TypeError
      | JObj _ \<Rightarrow> TypeError)"

text \<open>
  Lines 99 to 102 and 123 to 126: the check of the embedded status. \<open>Some e\<close> when the
  lines raise \<open>e\<close>, \<open>None\<close> when control passes on.
\<close>

definition check_base_resp :: "json \<Rightarrow> py_exception option" where
  "check_base_resp data =
     (case py_contains ''base_resp'' data of
        Inl e \<Rightarrow> Some e
      | Inr False \<Rightarrow> None
      | Inr True \<Rightarrow>
          (case and_then (py_getitem data ''base_resp'') (\<lambda>b. py_getitem b ''status_code'') of
             Inl e \<Rightarrow> Some e
           | Inr code \<Rightarrow>
               if py_ne_zero code then
                 (case and_then (py_getitem data ''base_resp'') (\<lambda>b. py_getitem b ''status_msg'') of
                    Inl e \<Rightarrow> Some e
                  | Inr msg \<Rightarrow> Some (handle_error_value code msg))
               else None))"

subsection \<open>\<^verbatim>\<open>_handle_chat_generate_response\<close>\<close>

text \<open>The usage dictionary both handlers attach to the message.\<close>

definition usage_of :: "json \<Rightarrow> json" where
  "usage_of tokens =
     JObj [(''prompt_tokens'', JInt 0), (''completion_tokens'', tokens), (''total_tokens'', tokens)]"

text \<open>\<open>data["choices"][0]["finish_reason"]\<close>\<close>

definition finish_reason_of :: "json \<Rightarrow> py_exception + json" where
  "finish_reason_of data =
     and_then (py_getitem data ''choices'') (\<lambda>cs.
     and_then (py_getitem0 cs) (\<lambda>c. py_getitem c ''finish_reason''))"

text \<open>\<open>data["usage"]["total_tokens"]\<close>\<close>

definition total_tokens_of :: "json \<Rightarrow> py_exception + json" where
  "total_tokens_of data = and_then (py_getitem data ''usage'') (\<lambda>u. py_getitem u ''total_tokens'')"

text \<open>The argument is the value of \<^verbatim>\<open>response.json()\<close>, \<open>None\<close> when that call raises.\<close>

definition handle_chat_generate_response :: "json option \<Rightarrow> py_exception + json minimax_message" where
  "handle_chat_generate_response body =
     (case body of
        None \<Rightarrow> Inl JSONDecodeError
      | Some response \<Rightarrow>
          (case check_base_resp response of
             Some e \<Rightarrow> Inl e
           | None \<Rightarrow>
               and_then (py_getitem response ''reply'') (\<lambda>reply.
               and_then (total_tokens_of response) (\<lambda>tokens.
               and_then (finish_reason_of response) (\<lambda>reason.
                 Inr ((MinimaxMessage reply ASSISTANT)
                        \<lparr>usage := Some (usage_of tokens), stop_reason := Some reason\<rparr>))))))"

subsection \<open>\<^verbatim>\<open>_handle_stream_chat_generate_response\<close>\<close>

text \<open>
  The generator is modelled by everything it does when it is consumed to its end: the
  messages it yields, in order, how it stops, and how many lines it has taken from
  \<^verbatim>\<open>response.iter_lines()\<close> by then.
\<close>

datatype ending = Exhausted | Returned | Raised py_exception

record stream_run =
  events :: "json minimax_message list"
  ending :: ending
  lines_read :: nat

text \<open>What one pass of the loop body does after its yields: go on to the next line,
  return, or raise.\<close>

datatype control = Next | Stop | Fail py_exception

text \<open>Lines 137 to 139: one message per choice, until a choice has no \<^verbatim>\<open>delta\<close>.\<close>

fun yield_deltas :: "json list \<Rightarrow> json minimax_message list \<times> control" where
  "yield_deltas [] = ([], Next)"
| "yield_deltas (choice # rest) =
     (case py_getitem choice ''delta'' of
        Inl e \<Rightarrow> ([], Fail e)
      | Inr message \<Rightarrow>
          (case yield_deltas rest of (ms, c) \<Rightarrow> (MinimaxMessage message ASSISTANT # ms, c)))"

text \<open>Lines 127 to 133: the terminal message.\<close>

definition terminal_message :: "json \<Rightarrow> py_exception + json minimax_message" where
  "terminal_message data =
     and_then (total_tokens_of data) (\<lambda>tokens.
     and_then (finish_reason_of data) (\<lambda>reason.
       Inr ((MinimaxMessage (JStr []) ASSISTANT)
              \<lparr>usage := Some (usage_of tokens), stop_reason := Some reason\<rparr>)))"

text \<open>Lines 123 to 139 on one decoded record.\<close>

definition handle_record :: "json \<Rightarrow> json minimax_message list \<times> control" where
  "handle_record data =
     (case check_base_resp data of
        Some e \<Rightarrow> ([], Fail e)
      | None \<Rightarrow>
          (case py_getitem data ''reply'' of
             Inl e \<Rightarrow> ([], Fail e)
           | Inr reply \<Rightarrow>
               if py_truthy reply then
                 (case terminal_message data of
                    Inl e \<Rightarrow> ([], Fail e)
                  | Inr message \<Rightarrow> ([message], Stop))
               else
                 (case and_then (py_get data ''choices'' (JArr [])) py_iter of
                    Inl e \<Rightarrow> ([], Fail e)
                  | Inr choices \<Rightarrow>
                      if length choices = 0 then ([], Next) else yield_deltas choices)))"

text \<open>
  Lines 119 to 122 on one non-empty line. \<^verbatim>\<open>bytes.decode\<close> and \<^verbatim>\<open>json.loads\<close> belong
  to the Python library and are parameters: \<open>decode\<close> gives the text of a line of bytes
  and \<open>loads\<close> the value of a JSON text, each \<open>None\<close> where the library raises.
\<close>

definition strip_data_prefix :: "string \<Rightarrow> string" where
  "strip_data_prefix line = (if prefix ''data: '' line then py_strip (drop 6 line) else line)"

definition handle_line ::
  "(string \<Rightarrow> string option) \<Rightarrow> (string \<Rightarrow> json option) \<Rightarrow> string
     \<Rightarrow> json minimax_message list \<times> control" where
  "handle_line decode loads raw =
     (case decode raw of
        None \<Rightarrow> ([], Fail UnicodeDecodeError)
      | Some line \<Rightarrow>
          (case loads (strip_data_prefix line) of
             None \<Rightarrow> ([], Fail JSONDecodeError)
           | Some data \<Rightarrow> handle_record data))"

fun handle_stream_chat_generate_response ::
  "(string \<Rightarrow> string option) \<Rightarrow> (string \<Rightarrow> json option) \<Rightarrow> string list \<Rightarrow> stream_run" where
  "handle_stream_chat_generate_response decode loads [] =
     \<lparr>events = [], ending = Exhausted, lines_read = 0\<rparr>"
| "handle_stream_chat_generate_response decode loads (raw # rest) =
     (if raw = [] then
        (let r = handle_stream_chat_generate_response decode loads rest
         in r\<lparr>lines_read := Suc (lines_read r)\<rparr>)
      else
        (case handle_line decode loads raw of
           (ms, Next) \<Rightarrow>
             (let r = handle_stream_chat_generate_response decode loads rest
              in r\<lparr>events := ms @ events r, lines_read := Suc (lines_read r)\<rparr>)
         | (ms, Stop) \<Rightarrow> \<lparr>events = ms, ending = Returned, lines_read = 1\<rparr>
         | (ms, Fail e) \<Rightarrow> \<lparr>events = ms, ending = Raised e, lines_read = 1\<rparr>))"

subsection \<open>\<^verbatim>\<open>generate\<close>\<close>

text \<open>
  The body handed to \<^verbatim>\<open>dumps\<close>: the five fixed keys and, in \<open>body_extra\<close>, the keys
  that \<^verbatim>\<open>**extra_kwargs\<close> adds (none of them is one of the five). The type \<open>'d\<close> is
  that of \<^verbatim>\<open>to_completion_dict\<close>'s value.
\<close>

record 'd chat_body =
  body_model :: string
  body_messages :: "'d list"
  body_prompt :: string
  body_role_meta :: "(string \<times> string) list"
  body_stream :: bool
  body_extra :: "string \<rightharpoonup> json"

text \<open>One call of \<^verbatim>\<open>requests.post\<close>, by its keyword arguments.\<close>

record 'd post_call =
  post_url :: string
  post_data :: "'d chat_body"
  post_headers :: "(string \<times> string) list"
  post_stream :: bool
  post_timeout :: "nat \<times> nat"

text \<open>
  What the adapter reads of a \<^verbatim>\<open>Response\<close>: its status, its text, the value of
  \<^verbatim>\<open>json()\<close> (\<open>None\<close> when that raises) and the lines \<^verbatim>\<open>iter_lines()\<close> gives.
\<close>

record response =
  resp_status_code :: int
  resp_text :: string
  resp_json :: "json option"
  resp_lines :: "string list"

datatype generated = Message "json minimax_message" | Generator stream_run

text \<open>Lines 43 to 49.\<close>

definition extra_kwargs_of :: "(string \<rightharpoonup> json) \<Rightarrow> (string \<rightharpoonup> json)" where
  "extra_kwargs_of model_parameters =
     (let e0 = Map.empty;
          e1 = (case model_parameters ''max_tokens'' of
                  Some v \<Rightarrow> if isinstance_int v then e0(''tokens_to_generate'' \<mapsto> v) else e0
                | None \<Rightarrow> e0);
          e2 = (case model_parameters ''temperature'' of
                  Some v \<Rightarrow> if isinstance_float v then e1(''temperature'' \<mapsto> v) else e1
                | None \<Rightarrow> e1);
          e3 = (case model_parameters ''top_p'' of
                  Some v \<Rightarrow> if isinstance_float v then e2(''top_p'' \<mapsto> v) else e2
                | None \<Rightarrow> e2)
      in e3)"

text \<open>The default prompt and the role names of lines 50 and 51, in UTF-8.\<close>

definition default_prompt :: string where
  "default_prompt =
     [CHR 0xE4, CHR 0xBD, CHR 0xA0, CHR 0xE6, CHR 0x98, CHR 0xAF, CHR 0xE4, CHR 0xB8, CHR 0x80,
      CHR 0xE4, CHR 0xB8, CHR 0xAA, CHR 0xE4, CHR 0xBB, CHR 0x80, CHR 0xE4, CHR 0xB9, CHR 0x88,
      CHR 0xE9, CHR 0x83, CHR 0xBD, CHR 0xE6, CHR 0x87, CHR 0x82, CHR 0xE7, CHR 0x9A, CHR 0x84,
      CHR 0xE4, CHR 0xB8, CHR 0x93, CHR 0xE5, CHR 0xAE, CHR 0xB6]"

definition role_meta :: "(string \<times> string) list" where
  "role_meta =
     [(''user_name'', [CHR 0xE6, CHR 0x88, CHR 0x91]),
      (''bot_name'', [CHR 0xE4, CHR 0xB8, CHR 0x93, CHR 0xE5, CHR 0xAE, CHR 0xB6])]"

text \<open>
  Lines 37 to 69 and the arguments of \<^verbatim>\<open>post\<close> on line 71: the checks, and the one
  request \<^verbatim>\<open>generate\<close> builds when they pass. \<open>to_completion_dict\<close> is the method
  of the absent \<^verbatim>\<open>MinimaxMessage\<close> class.
\<close>

definition build_request ::
  "(string minimax_message \<Rightarrow> 'd) \<Rightarrow> string \<Rightarrow> string \<Rightarrow> string \<Rightarrow> string
     \<Rightarrow> string minimax_message list \<Rightarrow> (string \<rightharpoonup> json) \<Rightarrow> bool
     \<Rightarrow> py_exception + 'd post_call" where
  "build_request to_completion_dict model api_key group_id endpoint_url prompt_messages
       model_parameters stream =
     (if api_key = [] \<or> group_id = [] then
        Inl (InvalidAPIKeyError (JStr ''Invalid API key or group ID''))
      else
        let base_url = rstrip_slash endpoint_url;
            url = base_url @ ''/v1/text/chatcompletion?GroupId='' @ group_id;
            extra_kwargs = extra_kwargs_of model_parameters
        in
        if length prompt_messages = 0 then
          Inl (BadRequestError (JStr ''At least one message is required''))
        else
          let first_is_system = (role (hd prompt_messages) = SYSTEM);
              prompt = (if first_is_system \<and> content (hd prompt_messages) \<noteq> []
                        then content (hd prompt_messages) else default_prompt);
              prompt_messages = (if first_is_system then tl prompt_messages else prompt_messages)
          in
          if length prompt_messages = 0 then
            Inl (BadRequestError (JStr ''At least one user message is required''))
          else
            let messages = map to_completion_dict prompt_messages;
                headers = [(''Authorization'', ''Bearer '' @ api_key),
                           (''Content-Type'', ''application/json'')];
                body = \<lparr>body_model = model, body_messages = messages, body_prompt = prompt,
                         body_role_meta = role_meta, body_stream = stream,
                         body_extra = extra_kwargs\<rparr>
            in Inr \<lparr>post_url = url, post_data = body, post_headers = headers,
                     post_stream = stream, post_timeout = (10, 300)\<rparr>)"

text \<open>
  \<^verbatim>\<open>generate\<close>, with the calls of \<^verbatim>\<open>post\<close> it has made next to its outcome. Its
  parameters \<^verbatim>\<open>tools\<close>, \<^verbatim>\<open>stop\<close> and \<^verbatim>\<open>user\<close> are never read and are left
  out. \<open>post\<close> is \<^verbatim>\<open>requests.post\<close>, \<open>Inl\<close> of a description when it raises. With
  \<^verbatim>\<open>stream\<close> set the value is the generator, whose run over the response's lines is
  recorded in full although nothing of it happens before the caller iterates.
\<close>

definition generate ::
  "(string minimax_message \<Rightarrow> 'd) \<Rightarrow> ('d post_call \<Rightarrow> string + response)
     \<Rightarrow> (string \<Rightarrow> string option) \<Rightarrow> (string \<Rightarrow> json option)
     \<Rightarrow> string \<Rightarrow> string \<Rightarrow> string \<Rightarrow> string \<Rightarrow> string minimax_message list
     \<Rightarrow> (string \<rightharpoonup> json) \<Rightarrow> bool
     \<Rightarrow> (py_exception + generated) \<times> 'd post_call list" where
  "generate to_completion_dict post decode loads
       model api_key group_id endpoint_url prompt_messages model_parameters stream =
     (case build_request to_completion_dict model api_key group_id endpoint_url
             prompt_messages model_parameters stream of
        Inl e \<Rightarrow> (Inl e, [])
      | Inr call \<Rightarrow>
          (case post call of
             Inl e \<Rightarrow> (Inl (InternalServerError (JStr e)), [call])
           | Inr resp \<Rightarrow>
               if resp_status_code resp \<noteq> 200 then
                 (Inl (InternalServerError (JStr (resp_text resp))), [call])
               else if stream then
                 (Inr (Generator
                         (handle_stream_chat_generate_response decode loads (resp_lines resp))),
                  [call])
               else
                 (case handle_chat_generate_response (resp_json resp) of
                    Inl e \<Rightarrow> (Inl e, [call])
                  | Inr message \<Rightarrow> (Inr (Message message), [call]))))"

section \<open>The text-embedding adapter (\<^verbatim>\<open>HuggingfaceTeiTextEmbeddingModel\<close>)\<close>

subsection \<open>Python's \<^verbatim>\<open>float\<close> arithmetic\<close>

text \<open>
  Line 80 computes \<^verbatim>\<open>int(len(text) * (context_size / num_tokens))\<close> in floating
  point. A Python \<^verbatim>\<open>float\<close> is an IEEE 754 binary64 number: a sign, and a magnitude
  \<open>m * 2 ^ e\<close> with a significand \<open>m\<close> of at most 53 bits. Every operation gives
  the representable number nearest to the exact result, a tie going to the even
  significand. The model keeps the sign, the significand and the exponent, and rounds to
  53 bits with no bound on the exponent: it is binary64 wherever that neither overflows
  nor leaves the normal range, that is for magnitudes from \<open>2 ^ -1022\<close> up to
  \<open>2 ^ 1024\<close>, which lengths, token counts and their ratios never leave.
\<close>

datatype pyfloat = PyFloat (negative: bool) (significand: nat) (exponent: int)

text \<open>The magnitude a float denotes.\<close>

definition float_mag :: "pyfloat \<Rightarrow> real" where
  "float_mag x = real (significand x) * 2 powi exponent x"

text \<open>\<^verbatim>\<open>int.bit_length\<close>: the number of binary digits of \<open>n\<close>.\<close>

fun bit_length :: "nat \<Rightarrow> nat" where
  "bit_length n = (if n = 0 then 0 else Suc (bit_length (n div 2)))"

declare bit_length.simps [simp del]

text \<open>The integer nearest to \<open>n / d\<close>, a tie going to the even one (\<open>d\<close> positive).\<close>

definition round_half_even :: "nat \<Rightarrow> nat \<Rightarrow> nat" where
  "round_half_even n d =
     (let q = n div d; r = n mod d
      in if 2 * r < d then q
         else if d < 2 * r then q + 1
         else if even q then q else q + 1)"

text \<open>Whether \<open>2 ^ k \<le> n / d\<close>, for an exponent \<open>k\<close> of either sign.\<close>

definition at_least_pow2 :: "nat \<Rightarrow> nat \<Rightarrow> int \<Rightarrow> bool" where
  "at_least_pow2 n d k = (if 0 \<le> k then d * 2 ^ nat k \<le> n else d \<le> n * 2 ^ nat (- k))"

text \<open>
  The number with a 53-bit significand nearest to \<open>n / d\<close>, for positive \<open>n\<close> and
  \<open>d\<close>, as significand and exponent. From the bit lengths,
  \<open>2 ^ (k - 1) < n / d < 2 ^ (k + 1)\<close>; the exponent \<open>e\<close> is chosen so that
  \<open>2 ^ 52 \<le> (n / d) / 2 ^ e < 2 ^ 53\<close>, and the significand is that quotient rounded.
\<close>

definition round53 :: "nat \<Rightarrow> nat \<Rightarrow> nat \<times> int" where
  "round53 n d =
     (let k = int (bit_length n) - int (bit_length d);
          e = (if at_least_pow2 n d k then k else k - 1) - 52;
          m = (if 0 \<le> e then round_half_even n (d * 2 ^ nat e)
               else round_half_even (n * 2 ^ nat (- e)) d)
      in (m, e))"

text \<open>The float nearest to \<open>(n / d) * 2 ^ x\<close>, with the given sign.\<close>

definition float_round :: "bool \<Rightarrow> nat \<Rightarrow> nat \<Rightarrow> int \<Rightarrow> pyfloat" where
  "float_round s n d x =
     (if n = 0 then PyFloat s 0 0
      else case round53 n d of (m, e) \<Rightarrow> PyFloat s m (e + x))"

text \<open>\<^verbatim>\<open>a / b\<close> on two \<^verbatim>\<open>int\<close>s: the float nearest to the quotient.\<close>

definition int_truediv :: "int \<Rightarrow> int \<Rightarrow> py_exception + pyfloat" where
  "int_truediv a b =
     (if b = 0 then Inl ZeroDivisionError
      else Inr (float_round ((a < 0) \<noteq> (b < 0)) (nat \<bar>a\<bar>) (nat \<bar>b\<bar>) 0))"

text \<open>\<^verbatim>\<open>float(a)\<close>, which \<^verbatim>\<open>a * x\<close> applies to its \<^verbatim>\<open>int\<close> operand first.\<close>

definition float_of_int :: "int \<Rightarrow> pyfloat" where
  "float_of_int a = float_round (a < 0) (nat \<bar>a\<bar>) 1 0"

definition float_mul :: "pyfloat \<Rightarrow> pyfloat \<Rightarrow> pyfloat" where
  "float_mul x y =
     float_round (negative x \<noteq> negative y) (significand x * significand y) 1
       (exponent x + exponent y)"

text \<open>\<^verbatim>\<open>int(x)\<close>: the fraction is dropped, rounding towards zero.\<close>

definition int_of_float :: "pyfloat \<Rightarrow> int" where
  "int_of_float x =
     (let a = (if 0 \<le> exponent x then significand x * 2 ^ nat (exponent x)
               else significand x div 2 ^ nat (- exponent x))
      in if negative x then - int a else int a)"

text \<open>\<^verbatim>\<open>xs[0:j]\<close>: a negative \<open>j\<close> counts from the end.\<close>

definition py_slice_to :: "'a list \<Rightarrow> int \<Rightarrow> 'a list" where
  "py_slice_to xs j = (if j < 0 then take (nat (int (length xs) + j)) xs else take (nat j) xs)"

subsection \<open>\<^verbatim>\<open>_invoke\<close>: truncation\<close>

text \<open>
  A text is a list of characters of any type \<open>'c\<close>; only its length and its prefixes
  matter. The token estimator \<^verbatim>\<open>_get_num_tokens_by_gpt2\<close>, a method of the plugin
  framework, is the parameter \<open>est\<close>; it counts the tokens of a list, so its value is a
  natural number.
\<close>

text \<open>Line 80: \<^verbatim>\<open>int(len(text) * (context_size / num_tokens))\<close>.\<close>

definition text_cutoff :: "nat \<Rightarrow> int \<Rightarrow> nat \<Rightarrow> py_exception + int" where
  "text_cutoff len context_size num_tokens =
     and_then (int_truediv context_size (int num_tokens)) (\<lambda>ratio.
       Inr (int_of_float (float_mul (float_of_int (int len)) ratio)))"

text \<open>Lines 77 to 83 for one text: the input to send and the text's token count.\<close>

definition truncate_text ::
  "('c list \<Rightarrow> nat) \<Rightarrow> int \<Rightarrow> 'c list \<Rightarrow> py_exception + ('c list \<times> nat)" where
  "truncate_text est context_size text =
     (let num_tokens = est text
      in if context_size \<le> int num_tokens then
           (case text_cutoff (length text) context_size num_tokens of
              Inl e \<Rightarrow> Inl e
            | Inr cutoff \<Rightarrow> Inr (py_slice_to text cutoff, num_tokens))
         else Inr (text, num_tokens))"

text \<open>The three variables the loop of lines 76 to 85 updates.\<close>

record 'c prepared =
  inputs :: "'c list list"
  indices :: "nat list"
  used_tokens :: nat

fun prepare_inputs ::
  "('c list \<Rightarrow> nat) \<Rightarrow> int \<Rightarrow> nat \<Rightarrow> 'c list list \<Rightarrow> 'c prepared
     \<Rightarrow> py_exception + 'c prepared" where
  "prepare_inputs est context_size i [] st = Inr st"
| "prepare_inputs est context_size i (text # rest) st =
     (case truncate_text est context_size text of
        Inl e \<Rightarrow> Inl e
      | Inr (input, num_tokens) \<Rightarrow>
          prepare_inputs est context_size (Suc i) rest
            \<lparr>inputs = inputs st @ [input], indices = indices st @ [i],
             used_tokens = used_tokens st + num_tokens\<rparr>)"

subsection \<open>\<^verbatim>\<open>_invoke\<close>: the settings read from the credentials\<close>

text \<open>
  The \<^verbatim>\<open>credentials\<close> dictionary is given by its items, each value a Python value.
  \<^verbatim>\<open>int(x)\<close>: an int is itself, a bool is 0 or 1, a float loses its fraction, a
  string is parsed, and anything else is a \<^verbatim>\<open>TypeError\<close>. The parsing of a string is
  Python's own and is the parameter \<open>int_of_str\<close>, with \<open>None\<close> where \<^verbatim>\<open>int\<close> raises
  \<^verbatim>\<open>ValueError\<close>.
\<close>

definition py_int :: "(string \<Rightarrow> int option) \<Rightarrow> json \<Rightarrow> py_exception + int" where
  "py_int int_of_str x =
     (case x of
        JInt n \<Rightarrow> Inr n
      | JBool b \<Rightarrow> Inr (if b then 1 else 0)
      | JFloat r \<Rightarrow> Inr (if 0 \<le> r then \<lfloor>r\<rfloor> else \<lceil>r\<rceil>)
      | JStr s \<Rightarrow> (case int_of_str s of None \<Rightarrow> Inl ValueError | Some n \<Rightarrow> Inr n)
      | _ \<Rightarrow> Inl TypeError)"

text \<open>\<^verbatim>\<open>credentials.get(key) or default\<close>, the argument of \<^verbatim>\<open>int\<close> on lines 63 and 64.\<close>

definition get_or :: "(string \<times> json) list \<Rightarrow> string \<Rightarrow> json \<Rightarrow> json" where
  "get_or credentials k d =
     (case map_of credentials k of
        None \<Rightarrow> d
      | Some v \<Rightarrow> if py_truthy v then v else d)"

text \<open>\<^verbatim>\<open>x.removesuffix("/")\<close>, a method of strings.\<close>

definition removesuffix_slash :: "json \<Rightarrow> py_exception + string" where
  "removesuffix_slash x =
     (case x of
        JStr s \<Rightarrow> Inr (if s \<noteq> [] \<and> last s = CHR ''/'' then butlast s else s)
      | _ \<Rightarrow> Inl AttributeError)"

text \<open>
  \<^verbatim>\<open>f"Bearer {api_key}"\<close>: a string is inserted as it is; the text Python inserts for a
  value of another type is the parameter \<open>fmt\<close>.
\<close>

definition bearer :: "(json \<Rightarrow> string) \<Rightarrow> json \<Rightarrow> string" where
  "bearer fmt api_key = ''Bearer '' @ (case api_key of JStr s \<Rightarrow> s | _ \<Rightarrow> fmt api_key)"

text \<open>What lines 61 to 68 leave in \<^verbatim>\<open>server_url\<close>, \<^verbatim>\<open>max_retries\<close>,
  \<^verbatim>\<open>invoke_timeout\<close> and \<^verbatim>\<open>headers\<close>.\<close>

record settings =
  server_url :: string
  max_retries :: int
  invoke_timeout :: int
  headers :: "(string \<times> string) list"

definition DEFAULT_MAX_RETRIES :: int where
  "DEFAULT_MAX_RETRIES = 3"

definition DEFAULT_INVOKE_TIMEOUT :: int where
  "DEFAULT_INVOKE_TIMEOUT = 60"

text \<open>Lines 61 to 68, in the order the source evaluates them.\<close>

definition read_settings ::
  "(string \<Rightarrow> int option) \<Rightarrow> (json \<Rightarrow> string) \<Rightarrow> (string \<times> json) list
     \<Rightarrow> py_exception + settings" where
  "read_settings int_of_str fmt credentials =
     (case map_of credentials ''server_url'' of
        None \<Rightarrow> Inl (KeyError (JStr ''server_url''))
      | Some url \<Rightarrow>
          and_then (removesuffix_slash url) (\<lambda>url.
          and_then (py_int int_of_str
                      (get_or credentials ''max_retries'' (JInt DEFAULT_MAX_RETRIES))) (\<lambda>retries.
          and_then (py_int int_of_str
                      (get_or credentials ''invoke_timeout'' (JInt DEFAULT_INVOKE_TIMEOUT))) (\<lambda>timeout.
          Inr \<lparr>server_url = url, max_retries = retries, invoke_timeout = timeout,
               headers =
                 (''Content-Type'', ''application/json'') #
                 (case map_of credentials ''api_key'' of
                    None \<Rightarrow> []
                  | Some api_key \<Rightarrow>
                      if py_truthy api_key then [(''Authorization'', bearer fmt api_key)]
                      else [])\<rparr>))))"

subsection \<open>\<^verbatim>\<open>_invoke\<close>: batches\<close>

text \<open>\<^verbatim>\<open>range(0, n, step)\<close> as the list of its values; a zero step is an error.\<close>

definition py_range :: "nat \<Rightarrow> int \<Rightarrow> py_exception + nat list" where
  "py_range n step =
     (if step = 0 then Inl ValueError
      else if step < 0 then Inr []
      else Inr (map (\<lambda>k. k * nat step) [0 ..< (n + nat step - 1) div nat step]))"

text \<open>The slices \<^verbatim>\<open>inputs[i : i + max_chunks]\<close> of line 91, one for each \<open>i\<close> of the
  range of line 88.\<close>

definition chunks_of :: "int \<Rightarrow> 'c list list \<Rightarrow> 'c list list list" where
  "chunks_of max_chunks inps =
     (case py_range (length inps) max_chunks of
        Inl e \<Rightarrow> []
      | Inr starts \<Rightarrow> map (\<lambda>i. take (nat max_chunks) (drop i inps)) starts)"

text \<open>
  The five arguments of one call of \<^verbatim>\<open>TeiHelper.invoke_embeddings\<close>, in the order of
  line 92. The helper, declared in \<^verbatim>\<open>models/helper.py\<close>, is a parameter of the model:
  from the state of everything it depends on (the server, the network), of a type \<open>'w\<close>
  left open, and the arguments of a call it gives the dictionary it returns or the
  exception it raises, and the next state. Nothing but a call of the helper changes that
  state.
\<close>

record 'c embeddings_call =
  call_server_url :: string
  call_texts :: "'c list list"
  call_headers :: "(string \<times> string) list"
  call_timeout :: int
  call_max_retries :: int

definition call_of :: "settings \<Rightarrow> 'c list list \<Rightarrow> 'c embeddings_call" where
  "call_of cfg iter_texts =
     \<lparr>call_server_url = server_url cfg, call_texts = iter_texts, call_headers = headers cfg,
      call_timeout = invoke_timeout cfg, call_max_retries = max_retries cfg\<rparr>"

text \<open>The comprehension of line 94.\<close>

fun embedding_fields :: "json list \<Rightarrow> py_exception + json list" where
  "embedding_fields [] = Inr []"
| "embedding_fields (embedding # rest) =
     and_then (py_getitem embedding ''embedding'') (\<lambda>v.
     and_then (embedding_fields rest) (\<lambda>vs. Inr (v # vs)))"

text \<open>Lines 93 and 94 on the outcome of a call: the embeddings of the response, or the
  exception of the call or of reading the response.\<close>

definition response_embeddings :: "py_exception + json \<Rightarrow> py_exception + json list" where
  "response_embeddings results =
     and_then results (\<lambda>r.
     and_then (py_getitem r ''data'') (\<lambda>embeddings.
     and_then (py_iter embeddings) embedding_fields))"

text \<open>The state of the loop of lines 90 to 95: the embeddings collected and the state of
  the helper's world.\<close>

record 'w batching =
  batched_embeddings :: "json list"
  world :: 'w

fun embed_batches ::
  "('w \<Rightarrow> 'c embeddings_call \<Rightarrow> (py_exception + json) \<times> 'w) \<Rightarrow> settings \<Rightarrow> int
     \<Rightarrow> 'c list list \<Rightarrow> nat list \<Rightarrow> 'w batching \<Rightarrow> py_exception option \<times> 'w batching" where
  "embed_batches invoke_embeddings cfg max_chunks inps [] st = (None, st)"
| "embed_batches invoke_embeddings cfg max_chunks inps (i # rest) st =
     (let iter_texts = take (nat max_chunks) (drop i inps);
          (results, w) = invoke_embeddings (world st) (call_of cfg iter_texts);
          st = st\<lparr>world := w\<rparr>
      in case response_embeddings results of
           Inl e \<Rightarrow> (Some e, st)
         | Inr embeddings \<Rightarrow>
             embed_batches invoke_embeddings cfg max_chunks inps rest
               (st\<lparr>batched_embeddings := batched_embeddings st @ embeddings\<rparr>))"

text \<open>Lines 96 and 97: an exception of the loop that is an instance of
  \<^verbatim>\<open>RuntimeError\<close>, of the class itself or of a subclass, becomes
  \<^verbatim>\<open>InvokeServerUnavailableError(str(e))\<close>; any other exception passes.\<close>

definition except_runtime_error :: "py_exception \<Rightarrow> py_exception" where
  "except_runtime_error e =
     (case e of
        RuntimeError s \<Rightarrow> InvokeServerUnavailableError s
      | NotImplementedError s \<Rightarrow> InvokeServerUnavailableError s
      | RecursionError s \<Rightarrow> InvokeServerUnavailableError s
      | RuntimeErrorSubclass c s \<Rightarrow> InvokeServerUnavailableError s
      | _ \<Rightarrow> e)"

subsection \<open>\<^verbatim>\<open>_calc_response_usage\<close> and \<^verbatim>\<open>_invoke\<close>\<close>

text \<open>
  \<^verbatim>\<open>EmbeddingUsage\<close>: the two token counts, and in \<open>usage_price\<close> what the
  framework's \<^verbatim>\<open>get_price\<close> gives for the count (unit price, price unit, total price
  and currency), of a type \<open>'p\<close> left open. The latency, a difference of clock readings,
  is not part of the model.
\<close>

record 'p embedding_usage =
  usage_tokens :: nat
  usage_total_tokens :: nat
  usage_price :: 'p

definition calc_response_usage :: "(nat \<Rightarrow> 'p) \<Rightarrow> nat \<Rightarrow> 'p embedding_usage" where
  "calc_response_usage get_price tokens_arg =
     \<lparr>usage_tokens = tokens_arg, usage_total_tokens = tokens_arg,
      usage_price = get_price tokens_arg\<rparr>"

text \<open>
  \<^verbatim>\<open>TextEmbeddingResult\<close> is a class of the plugin framework whose constructor
  validates its arguments: \<^verbatim>\<open>embeddings\<close> is declared a list of lists of floats.
  The validation of one embedding is the framework's and is the parameter \<open>validate\<close>:
  the list of floats it makes of a value, of a type \<open>'v\<close> left open, or \<open>None\<close> where
  it rejects the value. The constructor raises \<^verbatim>\<open>ValidationError\<close> when an embedding
  is rejected; the result holds the validated embeddings.
\<close>

record ('p, 'v) text_embedding_result =
  result_model :: string
  result_embeddings :: "'v list"
  result_usage :: "'p embedding_usage"

definition TextEmbeddingResult ::
  "(json \<Rightarrow> 'v option) \<Rightarrow> string \<Rightarrow> json list \<Rightarrow> 'p embedding_usage
     \<Rightarrow> py_exception + ('p, 'v) text_embedding_result" where
  "TextEmbeddingResult validate model embeddings u =
     (case those (map validate embeddings) of
        None \<Rightarrow> Inl ValidationError
      | Some vs \<Rightarrow> Inr \<lparr>result_model = model, result_embeddings = vs, result_usage = u\<rparr>)"

text \<open>
  \<^verbatim>\<open>_invoke\<close>, with the final state of the helper's world next to its outcome. The
  context size and the batch size come from framework methods
  (\<^verbatim>\<open>_get_context_size\<close>, \<^verbatim>\<open>_get_max_chunks\<close>) and are parameters.
\<close>

definition invoke ::
  "(string \<Rightarrow> int option) \<Rightarrow> (json \<Rightarrow> string) \<Rightarrow> ('c list \<Rightarrow> nat) \<Rightarrow> (nat \<Rightarrow> 'p)
     \<Rightarrow> (json \<Rightarrow> 'v option) \<Rightarrow> ('w \<Rightarrow> 'c embeddings_call \<Rightarrow> (py_exception + json) \<times> 'w)
     \<Rightarrow> int \<Rightarrow> int \<Rightarrow> string \<Rightarrow> (string \<times> json) list \<Rightarrow> 'c list list \<Rightarrow> 'w
     \<Rightarrow> (py_exception + ('p, 'v) text_embedding_result) \<times> 'w" where
  "invoke int_of_str fmt est get_price validate invoke_embeddings context_size max_chunks
       model credentials texts w =
     (case read_settings int_of_str fmt credentials of
        Inl e \<Rightarrow> (Inl e, w)
      | Inr cfg \<Rightarrow>
     (case prepare_inputs est context_size 0 texts \<lparr>inputs = [], indices = [], used_tokens = 0\<rparr> of
        Inl e \<Rightarrow> (Inl e, w)
      | Inr prep \<Rightarrow>
          (case py_range (length (inputs prep)) max_chunks of
             Inl e \<Rightarrow> (Inl e, w)
           | Inr starts \<Rightarrow>
               (case embed_batches invoke_embeddings cfg max_chunks (inputs prep) starts
                       \<lparr>batched_embeddings = [], world = w\<rparr> of
                  (Some e, st) \<Rightarrow> (Inl (except_runtime_error e), world st)
                | (None, st) \<Rightarrow>
                    (TextEmbeddingResult validate model (batched_embeddings st)
                       (calc_response_usage get_price (used_tokens prep)),
                     world st)))))"

subsection \<open>Calls in sequence\<close>

text \<open>
  One call of the helper for each of a list of calls, one after the other, each from the
  state the one before has left: the outcomes of the calls and the final state.
\<close>

fun call_each ::
  "('w \<Rightarrow> 'a \<Rightarrow> 'r \<times> 'w) \<Rightarrow> 'w \<Rightarrow> 'a list \<Rightarrow> 'r list \<times> 'w" where
  "call_each h w [] = ([], w)"
| "call_each h w (c # cs) =
     (case h w c of (r, w') \<Rightarrow>
        (case call_each h w' cs of (rs, w'') \<Rightarrow> (r # rs, w'')))"

text \<open>Of a list of outcomes, how many come up to and including the first failure.\<close>

definition up_to_failure :: "('e + 'a) list \<Rightarrow> nat" where
  "up_to_failure rs = min (length rs) (Suc (length (takeWhile (\<lambda>r. \<not> isl r) rs)))"

text \<open>
  A helper that answers every request in order: it returns a dictionary whose
  \<^verbatim>\<open>data\<close> is a list with, at each position, an object whose \<^verbatim>\<open>embedding\<close> is the
  embedding \<open>emb\<close> of the text at that position of the request.
\<close>

definition answers_in_order ::
  "('w \<Rightarrow> 'c embeddings_call \<Rightarrow> (py_exception + json) \<times> 'w) \<Rightarrow> ('c list \<Rightarrow> json) \<Rightarrow> bool" where
  "answers_in_order invoke_embeddings emb \<longleftrightarrow>
     (\<forall>w call. \<exists>results objects.
        fst (invoke_embeddings w call) = Inr results \<and>
        py_getitem results ''data'' = Inr (JArr objects) \<and>
        list_all2 (\<lambda>object text. py_getitem object ''embedding'' = Inr (emb text))
          objects (call_texts call))"

section \<open>Example data\<close>

text \<open>
  The streamed lines used as examples below carry these JSON texts after their
  \<^verbatim>\<open>data: \<close> prefix. \<open>example_loads\<close> gives the value of \<^verbatim>\<open>json.loads\<close> on each of
  them; on the example lines, which are ASCII, \<^verbatim>\<open>bytes.decode\<close> gives the same
  characters, so \<open>Some\<close> stands for it.
\<close>

definition example_loads :: "string \<Rightarrow> json option" where
  \<open>example_loads s =
     (if s = ''{"choices":[{"delta":"Hi"}]}'' then
        Some (JObj [(''choices'', JArr [JObj [(''delta'', JStr ''Hi'')]])])
      else if s = ''{"reply":"","choices":[{"delta":"Hi"}]}'' then
        Some (JObj [(''reply'', JStr []), (''choices'', JArr [JObj [(''delta'', JStr ''Hi'')]])])
      else if s = ''{"reply":"Hi","usage":{"total_tokens":3},"choices":[{"finish_reason":"stop"}]}'' then
        Some (JObj [(''reply'', JStr ''Hi''),
                    (''usage'', JObj [(''total_tokens'', JInt 3)]),
                    (''choices'', JArr [JObj [(''finish_reason'', JStr ''stop'')]])])
      else if s = ''{"base_resp":{"status_code":1004}}'' then
        Some (JObj [(''base_resp'', JObj [(''status_code'', JInt 1004)])])
      else if s = ''{"base_resp":{"status_code":1004,"status_msg":"invalid api key"}}'' then
        Some (JObj [(''base_resp'', JObj [(''status_code'', JInt 1004),
                                          (''status_msg'', JStr ''invalid api key'')])])
      else None)\<close>

text \<open>
  An embedding helper for the examples: it answers every request in order, the embedding
  of a text being the list of two floats made of the length of the text and one half, and
  it keeps the list of the text lists it has been called with, in the order of the calls.
\<close>

definition example_embedding :: "string \<Rightarrow> json" where
  "example_embedding t = JArr [JFloat (of_nat (length t)), JFloat (1 / 2)]"

definition example_helper ::
  "string list list \<Rightarrow> char embeddings_call \<Rightarrow> (py_exception + json) \<times> string list list" where
  "example_helper served call =
     (Inr (JObj [(''object'', JStr ''list''),
                 (''data'', JArr (map (\<lambda>t. JObj [(''object'', JStr ''embedding''),
                                                     (''embedding'', example_embedding t)])
                                      (call_texts call)))]),
      served @ [call_texts call])"

text \<open>A helper whose every call fails; it counts the calls it has received.\<close>

definition failing_helper ::
  "nat \<Rightarrow> char embeddings_call \<Rightarrow> (py_exception + json) \<times> nat" where
  "failing_helper received call = (Inl (RuntimeError ''connection refused''), Suc received)"

text \<open>A helper that answers each text with a string where an embedding is expected.\<close>

definition string_helper ::
  "nat \<Rightarrow> char embeddings_call \<Rightarrow> (py_exception + json) \<times> nat" where
  "string_helper received call =
     (Inr (JObj [(''data'', JArr (map (\<lambda>t. JObj [(''embedding'', JStr t)]) (call_texts call)))]),
      Suc received)"

text \<open>
  The validation of an embedding on the values of the examples: a list of floats and
  ints is accepted, an int becoming the float of the same value, and a string is
  rejected.
\<close>

definition float_of_json :: "json \<Rightarrow> rat option" where
  "float_of_json x = (case x of JFloat r \<Rightarrow> Some r | JInt n \<Rightarrow> Some (of_int n) | _ \<Rightarrow> None)"

definition example_validate :: "json \<Rightarrow> rat list option" where
  "example_validate x = (case x of JArr xs \<Rightarrow> those (map float_of_json xs) | _ \<Rightarrow> None)"

text \<open>Credentials for the examples; no string needs parsing and no value formatting.\<close>

definition example_credentials :: "(string \<times> json) list" where
  "example_credentials = [(''server_url'', JStr ''http://tei:8080/''), (''api_key'', JStr ''k'')]"

section \<open>Properties of the chat-completion adapter\<close>

text \<open>
  C8. \<^verbatim>\<open>_handle_error\<close> is defined on every status code and raises one exception for
  it: 1000, 1001, 1013 and 1027 raise \<open>InternalServerError\<close>, 1002 and 1039
  \<open>RateLimitReachedError\<close>, 1004 \<open>InvalidAuthenticationError\<close>, 1008
  \<open>InsufficientAccountBalanceError\<close>, 2013 \<open>BadRequestError\<close>, and every other code
  \<open>InternalServerError\<close>; the message is passed on unchanged.
\<close>

theorem handle_error_table:
  "(code \<in> {1000, 1001, 1013, 1027} \<longrightarrow> handle_error code msg = InternalServerError msg) \<and>
   (code \<in> {1002, 1039} \<longrightarrow> handle_error code msg = RateLimitReachedError msg) \<and>
   (code = 1004 \<longrightarrow> handle_error code msg = InvalidAuthenticationError msg) \<and>
   (code = 1008 \<longrightarrow> handle_error code msg = InsufficientAccountBalanceError msg) \<and>
   (code = 2013 \<longrightarrow> handle_error code msg = BadRequestError msg) \<and>
   (code \<notin> {1000, 1001, 1013, 1027, 1002, 1039, 1004, 1008, 2013}
      \<longrightarrow> handle_error code msg = InternalServerError msg)"
  by (simp add: handle_error_def)

theorem handle_error_table_witness:
  "handle_error 1013 (JStr ''busy'') = InternalServerError (JStr ''busy'') \<and>
   handle_error 1039 (JStr ''slow down'') = RateLimitReachedError (JStr ''slow down'') \<and>
   handle_error 1004 (JStr ''who'') = InvalidAuthenticationError (JStr ''who'') \<and>
   handle_error 1008 (JStr ''pay'') = InsufficientAccountBalanceError (JStr ''pay'') \<and>
   handle_error 2013 (JStr ''bad'') = BadRequestError (JStr ''bad'') \<and>
   handle_error 42 (JStr ''new'') = InternalServerError (JStr ''new'') \<and>
   handle_error (- 1004) JNull = InternalServerError JNull"
  using handle_error_table [of 1013 "JStr ''busy''"]
    handle_error_table [of 1039 "JStr ''slow down''"]
    handle_error_table [of 1004 "JStr ''who''"]
    handle_error_table [of 1008 "JStr ''pay''"]
    handle_error_table [of 2013 "JStr ''bad''"]
    handle_error_table [of 42 "JStr ''new''"]
    handle_error_table [of "- 1004" JNull]
  by simp

subsection \<open>Requests\<close>

lemma snd_generate:
  "snd (generate tcd post decode loads model api_key group_id url pm mp stream) =
     (case build_request tcd model api_key group_id url pm mp stream of
        Inl e \<Rightarrow> [] | Inr call \<Rightarrow> [call])"
  by (simp add: generate_def split: sum.splits)

lemma generate_Inl:
  "build_request tcd model api_key group_id url pm mp stream = Inl e \<Longrightarrow>
   generate tcd post decode loads model api_key group_id url pm mp stream = (Inl e, [])"
  by (simp add: generate_def)

text \<open>
  C5. \<^verbatim>\<open>generate\<close> checks the credentials first and the messages next, and posts only
  after both checks: with an empty \<open>api_key\<close> or \<open>group_id\<close> it raises
  \<open>InvalidAPIKeyError\<close>; with credentials given and a message list that is empty, or that
  holds nothing but a leading system message, it raises \<open>BadRequestError\<close>; in each of
  these cases the list of calls of \<^verbatim>\<open>post\<close> is empty.
\<close>

theorem generate_preconditions:
  "(api_key = [] \<or> group_id = [] \<longrightarrow>
      generate tcd post decode loads model api_key group_id url pm mp stream =
        (Inl (InvalidAPIKeyError (JStr ''Invalid API key or group ID'')), [])) \<and>
   (api_key \<noteq> [] \<and> group_id \<noteq> [] \<and> pm = [] \<longrightarrow>
      generate tcd post decode loads model api_key group_id url pm mp stream =
        (Inl (BadRequestError (JStr ''At least one message is required'')), [])) \<and>
   (api_key \<noteq> [] \<and> group_id \<noteq> [] \<and> pm \<noteq> [] \<and> role (hd pm) = SYSTEM \<and> tl pm = [] \<longrightarrow>
      generate tcd post decode loads model api_key group_id url pm mp stream =
        (Inl (BadRequestError (JStr ''At least one user message is required'')), []))"
  by (auto intro!: generate_Inl simp add: build_request_def Let_def)

theorem generate_preconditions_witness:
  "generate content (\<lambda>call. Inr \<lparr>resp_status_code = 200, resp_text = [], resp_json = None,
                                 resp_lines = []\<rparr>) Some example_loads
      ''abab5.5-chat'' [] ''group'' ''https://api.minimax.chat''
      [MinimaxMessage ''hello'' USER] Map.empty False
     = (Inl (InvalidAPIKeyError (JStr ''Invalid API key or group ID'')), []) \<and>
   generate content (\<lambda>call. Inr \<lparr>resp_status_code = 200, resp_text = [], resp_json = None,
                                 resp_lines = []\<rparr>) Some example_loads
      ''abab5.5-chat'' ''key'' ''group'' ''https://api.minimax.chat'' [] Map.empty False
     = (Inl (BadRequestError (JStr ''At least one message is required'')), []) \<and>
   generate content (\<lambda>call. Inr \<lparr>resp_status_code = 200, resp_text = [], resp_json = None,
                                 resp_lines = []\<rparr>) Some example_loads
      ''abab5.5-chat'' ''key'' ''group'' ''https://api.minimax.chat''
      [MinimaxMessage ''be brief'' SYSTEM] Map.empty False
     = (Inl (BadRequestError (JStr ''At least one user message is required'')), [])"
  using
    generate_preconditions [where api_key = "[]" and group_id = "''group''"
      and pm = "[MinimaxMessage ''hello'' USER]" and tcd = content and decode = Some
      and loads = example_loads and model = "''abab5.5-chat''"
      and url = "''https://api.minimax.chat''" and mp = Map.empty and stream = False
      and post = "\<lambda>call. Inr \<lparr>resp_status_code = 200, resp_text = [], resp_json = None,
                                 resp_lines = []\<rparr>"]
    generate_preconditions [where api_key = "''key''" and group_id = "''group''"
      and pm = "[]" and tcd = content and decode = Some
      and loads = example_loads and model = "''abab5.5-chat''"
      and url = "''https://api.minimax.chat''" and mp = Map.empty and stream = False
      and post = "\<lambda>call. Inr \<lparr>resp_status_code = 200, resp_text = [], resp_json = None,
                                 resp_lines = []\<rparr>"]
    generate_preconditions [where api_key = "''key''" and group_id = "''group''"
      and pm = "[MinimaxMessage ''be brief'' SYSTEM]" and tcd = content and decode = Some
      and loads = example_loads and model = "''abab5.5-chat''"
      and url = "''https://api.minimax.chat''" and mp = Map.empty and stream = False
      and post = "\<lambda>call. Inr \<lparr>resp_status_code = 200, resp_text = [], resp_json = None,
                                 resp_lines = []\<rparr>"]
  by (simp add: MinimaxMessage_def)

lemma build_request_system:
  assumes "api_key \<noteq> []" and "group_id \<noteq> []" and "role m = SYSTEM" and "rest \<noteq> []"
  shows "\<exists>call. build_request tcd model api_key group_id url (m # rest) mp stream = Inr call \<and>
           body_prompt (post_data call) = (if content m \<noteq> [] then content m else default_prompt) \<and>
           body_messages (post_data call) = map tcd rest"
  using assms by (simp add: build_request_def Let_def)

text \<open>
  C6. When the credentials are given, the first message has role system and other
  messages follow it, \<^verbatim>\<open>generate\<close> posts exactly one request; its \<^verbatim>\<open>prompt\<close> is the
  system message's content if that is non-empty and the default prompt otherwise, and its
  \<^verbatim>\<open>messages\<close> are the remaining messages, in order, each through
  \<^verbatim>\<open>to_completion_dict\<close>, so without the system message.
\<close>

theorem generate_system_prompt:
  assumes "api_key \<noteq> []" and "group_id \<noteq> []" and "role m = SYSTEM" and "rest \<noteq> []"
  shows "map (\<lambda>call. (body_prompt (post_data call), body_messages (post_data call)))
           (snd (generate tcd post decode loads model api_key group_id url (m # rest) mp stream))
         = [(if content m \<noteq> [] then content m else default_prompt, map tcd rest)]"
proof -
  from build_request_system [OF assms]
  obtain call where c: "build_request tcd model api_key group_id url (m # rest) mp stream = Inr call"
    and p: "body_prompt (post_data call) = (if content m \<noteq> [] then content m else default_prompt)"
    and ms: "body_messages (post_data call) = map tcd rest"
    by blast
  show ?thesis
    by (simp add: snd_generate c p ms)
qed

theorem generate_system_prompt_witness:
  "map (\<lambda>call. (body_prompt (post_data call), body_messages (post_data call)))
     (snd (generate content (\<lambda>call. Inl ''connection refused'') Some example_loads
             ''abab5.5-chat'' ''key'' ''group'' ''https://api.minimax.chat''
             [MinimaxMessage ''X'' SYSTEM, MinimaxMessage ''hello'' USER,
              MinimaxMessage ''hi'' ASSISTANT, MinimaxMessage ''bye'' USER]
             Map.empty True))
     = [(''X'', [''hello'', ''hi'', ''bye''])] \<and>
   map (\<lambda>call. (body_prompt (post_data call), body_messages (post_data call)))
     (snd (generate content (\<lambda>call. Inl ''connection refused'') Some example_loads
             ''abab5.5-chat'' ''key'' ''group'' ''https://api.minimax.chat''
             [MinimaxMessage [] SYSTEM, MinimaxMessage ''hello'' USER]
             Map.empty True))
     = [(default_prompt, [''hello''])]"
  using
    generate_system_prompt [where api_key = "''key''" and group_id = "''group''"
      and m = "MinimaxMessage ''X'' SYSTEM"
      and rest = "[MinimaxMessage ''hello'' USER, MinimaxMessage ''hi'' ASSISTANT,
                   MinimaxMessage ''bye'' USER]"
      and tcd = content and decode = Some and loads = example_loads
      and model = "''abab5.5-chat''" and url = "''https://api.minimax.chat''"
      and mp = Map.empty and stream = True and post = "\<lambda>call. Inl ''connection refused''"]
    generate_system_prompt [where api_key = "''key''" and group_id = "''group''"
      and m = "MinimaxMessage [] SYSTEM"
      and rest = "[MinimaxMessage ''hello'' USER]"
      and tcd = content and decode = Some and loads = example_loads
      and model = "''abab5.5-chat''" and url = "''https://api.minimax.chat''"
      and mp = Map.empty and stream = True and post = "\<lambda>call. Inl ''connection refused''"]
  by (simp add: MinimaxMessage_def)

lemma extra_kwargs_of_apply:
  "extra_kwargs_of mp k =
     (if k = ''top_p'' then
        (case mp ''top_p'' of Some v \<Rightarrow> if isinstance_float v then Some v else None | None \<Rightarrow> None)
      else if k = ''temperature'' then
        (case mp ''temperature'' of Some v \<Rightarrow> if isinstance_float v then Some v else None | None \<Rightarrow> None)
      else if k = ''tokens_to_generate'' then
        (case mp ''max_tokens'' of Some v \<Rightarrow> if isinstance_int v then Some v else None | None \<Rightarrow> None)
      else None)"
  by (simp add: extra_kwargs_of_def Let_def split: option.splits)

lemma build_request_extra:
  "build_request tcd model api_key group_id url pm mp stream = Inr call
   \<Longrightarrow> body_extra (post_data call) = extra_kwargs_of mp"
  by (auto simp add: build_request_def Let_def split: if_splits)

lemma generate_calls:
  "call \<in> set (snd (generate tcd post decode loads model api_key group_id url pm mp stream))
   \<Longrightarrow> body_extra (post_data call) = extra_kwargs_of mp"
  by (auto simp add: snd_generate split: sum.splits dest: build_request_extra [OF sym])

text \<open>
  C7. In every request \<^verbatim>\<open>generate\<close> posts, \<^verbatim>\<open>tokens_to_generate\<close> is the caller's
  \<^verbatim>\<open>max_tokens\<close> when that is present and an \<^verbatim>\<open>int\<close> (Python counts \<^verbatim>\<open>bool\<close> as
  one), \<^verbatim>\<open>temperature\<close> and \<^verbatim>\<open>top_p\<close> are the caller's when present and a
  \<^verbatim>\<open>float\<close>, each is absent otherwise, and no other key comes from the parameters.
\<close>

theorem generate_forwards_known_parameters:
  "\<forall>call \<in> set (snd (generate tcd post decode loads model api_key group_id url pm mp stream)).
     body_extra (post_data call) ''tokens_to_generate'' =
       (case mp ''max_tokens'' of
          Some v \<Rightarrow> if isinstance_int v then Some v else None | None \<Rightarrow> None) \<and>
     body_extra (post_data call) ''temperature'' =
       (case mp ''temperature'' of
          Some v \<Rightarrow> if isinstance_float v then Some v else None | None \<Rightarrow> None) \<and>
     body_extra (post_data call) ''top_p'' =
       (case mp ''top_p'' of
          Some v \<Rightarrow> if isinstance_float v then Some v else None | None \<Rightarrow> None) \<and>
     dom (body_extra (post_data call)) \<subseteq> {''tokens_to_generate'', ''temperature'', ''top_p''}"
proof
  fix call
  assume "call \<in> set (snd (generate tcd post decode loads model api_key group_id url pm mp stream))"
  then have e: "body_extra (post_data call) = extra_kwargs_of mp"
    by (rule generate_calls)
  have "dom (extra_kwargs_of mp) \<subseteq> {''tokens_to_generate'', ''temperature'', ''top_p''}"
  proof
    fix k assume "k \<in> dom (extra_kwargs_of mp)"
    then have "extra_kwargs_of mp k \<noteq> None" by auto
    then show "k \<in> {''tokens_to_generate'', ''temperature'', ''top_p''}"
      by (auto simp: extra_kwargs_of_apply split: if_splits)
  qed
  with e show "body_extra (post_data call) ''tokens_to_generate'' =
       (case mp ''max_tokens'' of
          Some v \<Rightarrow> if isinstance_int v then Some v else None | None \<Rightarrow> None) \<and>
     body_extra (post_data call) ''temperature'' =
       (case mp ''temperature'' of
          Some v \<Rightarrow> if isinstance_float v then Some v else None | None \<Rightarrow> None) \<and>
     body_extra (post_data call) ''top_p'' =
       (case mp ''top_p'' of
          Some v \<Rightarrow> if isinstance_float v then Some v else None | None \<Rightarrow> None) \<and>
     dom (body_extra (post_data call)) \<subseteq> {''tokens_to_generate'', ''temperature'', ''top_p''}"
    by (simp add: extra_kwargs_of_apply)
qed

theorem generate_forwards_known_parameters_witness:
  "map (\<lambda>call. (body_extra (post_data call) ''tokens_to_generate'',
                 body_extra (post_data call) ''temperature'',
                 body_extra (post_data call) ''top_p'',
                 body_extra (post_data call) ''seed'',
                 body_extra (post_data call) ''max_tokens''))
     (snd (generate content (\<lambda>call. Inl ''connection refused'') Some example_loads
             ''abab5.5-chat'' ''key'' ''group'' ''https://api.minimax.chat''
             [MinimaxMessage ''hello'' USER]
             [''max_tokens'' \<mapsto> JInt 100, ''temperature'' \<mapsto> JInt 1,
              ''top_p'' \<mapsto> JFloat (9 / 10), ''seed'' \<mapsto> JInt 7]
             False))
     = [(Some (JInt 100), None, Some (JFloat (9 / 10)), None, None)]"
proof -
  let ?mp = "[''max_tokens'' \<mapsto> JInt 100, ''temperature'' \<mapsto> JInt 1,
              ''top_p'' \<mapsto> JFloat (9 / 10), ''seed'' \<mapsto> JInt 7]"
  let ?g = "generate content (\<lambda>call. Inl ''connection refused'') Some example_loads
             ''abab5.5-chat'' ''key'' ''group'' ''https://api.minimax.chat''
             [MinimaxMessage ''hello'' USER] ?mp False"
  obtain call where c: "snd ?g = [call]"
    by (simp add: snd_generate build_request_def Let_def MinimaxMessage_def)
  then have "call \<in> set (snd ?g)"
    by simp
  with generate_forwards_known_parameters [of content "\<lambda>call. Inl ''connection refused''" Some
      example_loads "''abab5.5-chat''" "''key''" "''group''" "''https://api.minimax.chat''"
      "[MinimaxMessage ''hello'' USER]" ?mp False]
  have "body_extra (post_data call) ''tokens_to_generate'' = Some (JInt 100)"
    and "body_extra (post_data call) ''temperature'' = None"
    and "body_extra (post_data call) ''top_p'' = Some (JFloat (9 / 10))"
    and "dom (body_extra (post_data call)) \<subseteq> {''tokens_to_generate'', ''temperature'', ''top_p''}"
    by (simp_all add: isinstance_int_def isinstance_float_def)
  moreover from this(4) have "body_extra (post_data call) ''seed'' = None"
    and "body_extra (post_data call) ''max_tokens'' = None"
    by (auto simp: dom_def)
  ultimately show ?thesis
    by (simp add: c)
qed

subsection \<open>The stream decoder\<close>

lemma lstrip_with_id:
  assumes "\<forall>w \<in> set ws. w \<noteq> [] \<longrightarrow> \<not> prefix w s"
  shows "lstrip_with ws s = s"
proof -
  have "find (\<lambda>w. w \<noteq> [] \<and> prefix w s) ws = None"
    using assms by (auto simp: find_None_iff)
  then show ?thesis
    by (subst lstrip_with.simps) simp
qed

lemma py_strip_braces:
  assumes "s = CHR ''{'' # t" and "last s = CHR ''}''"
  shows "py_strip s = s"
proof -
  have 1: "lstrip_with py_whitespace s = s"
    by (rule lstrip_with_id) (simp add: py_whitespace_def assms(1))
  have ne: "s \<noteq> []"
    using assms(1) by simp
  then have "hd (rev s) = last s"
    by (simp add: hd_rev)
  with assms(2) ne obtain u where u: "rev s = CHR ''}'' # u"
    by (cases "rev s") auto
  have 2: "lstrip_with (map rev py_whitespace) (rev s) = rev s"
    by (rule lstrip_with_id) (simp add: py_whitespace_def u)
  show ?thesis
    by (simp add: py_strip_def 1 2)
qed

lemma strip_data_prefix_braces:
  assumes "t \<noteq> []" and "last t = CHR ''}''"
  shows "strip_data_prefix (''data: {'' @ t) = CHR ''{'' # t"
proof -
  have "py_strip (CHR ''{'' # t) = CHR ''{'' # t"
    using assms by (intro py_strip_braces) simp_all
  then show ?thesis
    by (simp add: strip_data_prefix_def)
qed

lemma payload_1: \<open>strip_data_prefix ''data: {"choices":[{"delta":"Hi"}]}'' = ''{"choices":[{"delta":"Hi"}]}''\<close>
  using strip_data_prefix_braces [of \<open>''"choices":[{"delta":"Hi"}]}''\<close>] by simp

lemma handle_1: \<open>handle_line Some example_loads ''data: {"choices":[{"delta":"Hi"}]}'' = ([], Fail (KeyError (JStr ''reply'')))\<close>
  by (simp add: handle_line_def payload_1 example_loads_def handle_record_def check_base_resp_def
     py_contains_def py_getitem_def)

text \<open>
  C3, as stated: on the two lines of the claim the decoder yields nothing. The first
  record has no \<^verbatim>\<open>reply\<close> key, so \<^verbatim>\<open>data["reply"]\<close> on line 127 raises
  \<^verbatim>\<open>KeyError\<close> before anything is yielded and before the second line is read.
\<close>

theorem stream_example_raises_KeyError:
  \<open>handle_stream_chat_generate_response Some example_loads
     [''data: {"choices":[{"delta":"Hi"}]}'',
      ''data: {"reply":"Hi","usage":{"total_tokens":3},"choices":[{"finish_reason":"stop"}]}'']
   = \<lparr>events = [], ending = Raised (KeyError (JStr ''reply'')), lines_read = 1\<rparr>\<close>
  by (simp add: handle_1)

lemma payload_1r: \<open>strip_data_prefix ''data: {"reply":"","choices":[{"delta":"Hi"}]}'' = ''{"reply":"","choices":[{"delta":"Hi"}]}''\<close>
  using strip_data_prefix_braces [of \<open>''"reply":"","choices":[{"delta":"Hi"}]}''\<close>] by simp

lemma payload_2: \<open>strip_data_prefix ''data: {"reply":"Hi","usage":{"total_tokens":3},"choices":[{"finish_reason":"stop"}]}'' = ''{"reply":"Hi","usage":{"total_tokens":3},"choices":[{"finish_reason":"stop"}]}''\<close>
  using strip_data_prefix_braces [of \<open>''"reply":"Hi","usage":{"total_tokens":3},"choices":[{"finish_reason":"stop"}]}''\<close>] by simp

lemma record_delta:
  "handle_record (JObj [(''reply'', JStr []), (''choices'', JArr [JObj [(''delta'', JStr ''Hi'')]])])
   = ([MinimaxMessage (JStr ''Hi'') ASSISTANT], Next)"
  by (simp add: handle_record_def check_base_resp_def py_contains_def py_getitem_def py_truthy_def
      py_get_def py_iter_def and_then_def)

lemma record_terminal:
  "handle_record (JObj [(''reply'', JStr ''Hi''),
                    (''usage'', JObj [(''total_tokens'', JInt 3)]),
                    (''choices'', JArr [JObj [(''finish_reason'', JStr ''stop'')]])])
   = ([(MinimaxMessage (JStr []) ASSISTANT)
         \<lparr>usage := Some (usage_of (JInt 3)), stop_reason := Some (JStr ''stop'')\<rparr>], Stop)"
  by (simp add: handle_record_def check_base_resp_def py_contains_def py_getitem_def py_truthy_def
      terminal_message_def total_tokens_of_def finish_reason_of_def py_getitem0_def and_then_def)

text \<open>
  C3, amended: when the first record also carries an empty \<^verbatim>\<open>reply\<close>, as the records
  of a stream must for line 127, the decoder yields one partial assistant message with
  content \<open>Hi\<close>, without usage and stop reason, then one terminal message with
  \<^verbatim>\<open>total_tokens\<close> 3 and stop reason \<open>stop\<close>, and returns after the second line. The
  hypotheses say what the Python library gives on the two lines.
\<close>

theorem stream_example_with_reply:
  assumes \<open>decode ''data: {"reply":"","choices":[{"delta":"Hi"}]}''
             = Some ''data: {"reply":"","choices":[{"delta":"Hi"}]}''\<close>
    and \<open>decode ''data: {"reply":"Hi","usage":{"total_tokens":3},"choices":[{"finish_reason":"stop"}]}''
           = Some ''data: {"reply":"Hi","usage":{"total_tokens":3},"choices":[{"finish_reason":"stop"}]}''\<close>
    and \<open>loads ''{"reply":"","choices":[{"delta":"Hi"}]}''
           = Some (JObj [(''reply'', JStr []), (''choices'', JArr [JObj [(''delta'', JStr ''Hi'')]])])\<close>
    and \<open>loads ''{"reply":"Hi","usage":{"total_tokens":3},"choices":[{"finish_reason":"stop"}]}''
           = Some (JObj [(''reply'', JStr ''Hi''),
                         (''usage'', JObj [(''total_tokens'', JInt 3)]),
                         (''choices'', JArr [JObj [(''finish_reason'', JStr ''stop'')]])])\<close>
  shows \<open>handle_stream_chat_generate_response decode loads
     [''data: {"reply":"","choices":[{"delta":"Hi"}]}'',
      ''data: {"reply":"Hi","usage":{"total_tokens":3},"choices":[{"finish_reason":"stop"}]}'']
   = \<lparr>events = [\<lparr>role = ASSISTANT, content = JStr ''Hi'', usage = None, stop_reason = None\<rparr>,
                 \<lparr>role = ASSISTANT, content = JStr [],
                  usage = Some (JObj [(''prompt_tokens'', JInt 0), (''completion_tokens'', JInt 3),
                                      (''total_tokens'', JInt 3)]),
                  stop_reason = Some (JStr ''stop'')\<rparr>],
      ending = Returned, lines_read = 2\<rparr>\<close>
proof -
  have 1: \<open>handle_line decode loads ''data: {"reply":"","choices":[{"delta":"Hi"}]}''
             = ([MinimaxMessage (JStr ''Hi'') ASSISTANT], Next)\<close>
    by (simp add: handle_line_def assms(1) payload_1r assms(3) record_delta)
  have 2: \<open>handle_line decode loads
             ''data: {"reply":"Hi","usage":{"total_tokens":3},"choices":[{"finish_reason":"stop"}]}''
             = ([(MinimaxMessage (JStr []) ASSISTANT)
                   \<lparr>usage := Some (usage_of (JInt 3)), stop_reason := Some (JStr ''stop'')\<rparr>], Stop)\<close>
    by (simp add: handle_line_def assms(2) payload_2 assms(4) record_terminal)
  show ?thesis
    by (simp add: 1 2 MinimaxMessage_def usage_of_def)
qed

theorem stream_example_with_reply_witness:
  \<open>handle_stream_chat_generate_response Some example_loads
     [''data: {"reply":"","choices":[{"delta":"Hi"}]}'',
      ''data: {"reply":"Hi","usage":{"total_tokens":3},"choices":[{"finish_reason":"stop"}]}'']
   = \<lparr>events = [\<lparr>role = ASSISTANT, content = JStr ''Hi'', usage = None, stop_reason = None\<rparr>,
                 \<lparr>role = ASSISTANT, content = JStr [],
                  usage = Some (JObj [(''prompt_tokens'', JInt 0), (''completion_tokens'', JInt 3),
                                      (''total_tokens'', JInt 3)]),
                  stop_reason = Some (JStr ''stop'')\<rparr>],
      ending = Returned, lines_read = 2\<rparr>\<close>
  by (rule stream_example_with_reply) (simp_all add: example_loads_def)

lemma stream_lines_read:
  "ending (handle_stream_chat_generate_response decode loads ls) = Exhausted
   \<Longrightarrow> lines_read (handle_stream_chat_generate_response decode loads ls) = length ls"
  by (induction ls) (auto simp: Let_def split: if_splits prod.splits control.splits)

lemma stream_append:
  "ending (handle_stream_chat_generate_response decode loads pre) = Exhausted \<Longrightarrow>
   handle_stream_chat_generate_response decode loads (pre @ rest) =
     \<lparr>events = events (handle_stream_chat_generate_response decode loads pre)
                @ events (handle_stream_chat_generate_response decode loads rest),
      ending = ending (handle_stream_chat_generate_response decode loads rest),
      lines_read = length pre + lines_read (handle_stream_chat_generate_response decode loads rest)\<rparr>"
  by (induction pre) (auto simp: Let_def split: if_splits prod.splits control.splits)

lemma check_base_resp_nonzero:
  assumes "py_getitem data ''base_resp'' = Inr base_resp"
    and "py_getitem base_resp ''status_code'' = Inr (JInt code)" and "code \<noteq> 0"
    and "py_getitem base_resp ''status_msg'' = Inr msg"
  shows "check_base_resp data = Some (handle_error code msg)"
proof -
  from assms(1) obtain kvs where "data = JObj kvs" and "map_of kvs ''base_resp'' = Some base_resp"
    by (auto simp: py_getitem_def split: json.splits option.splits)
  then have "py_contains ''base_resp'' data = Inr True"
    by (simp add: py_contains_def)
  with assms show ?thesis
    by (simp add: check_base_resp_def and_then_def py_ne_zero_def handle_error_value_def)
qed

lemma payload_3:
  \<open>strip_data_prefix ''data: {"base_resp":{"status_code":1004}}''
     = ''{"base_resp":{"status_code":1004}}''\<close>
  using strip_data_prefix_braces [of \<open>''"base_resp":{"status_code":1004}}''\<close>] by simp

lemma payload_4:
  \<open>strip_data_prefix ''data: {"base_resp":{"status_code":1004,"status_msg":"invalid api key"}}''
     = ''{"base_resp":{"status_code":1004,"status_msg":"invalid api key"}}''\<close>
  using strip_data_prefix_braces
    [of \<open>''"base_resp":{"status_code":1004,"status_msg":"invalid api key"}}''\<close>]
  by simp

lemma handle_3:
  \<open>handle_line Some example_loads ''data: {"base_resp":{"status_code":1004}}''
     = ([], Fail (KeyError (JStr ''status_msg'')))\<close>
  by (simp add: handle_line_def payload_3 example_loads_def handle_record_def check_base_resp_def
     py_contains_def py_getitem_def py_ne_zero_def and_then_def)

text \<open>
  C4, as stated: a record whose \<^verbatim>\<open>base_resp\<close> holds the status code 1004 and nothing
  else does not raise the error mapped for 1004. Line 125 reads
  \<^verbatim>\<open>data["base_resp"]["status_msg"]\<close> before \<^verbatim>\<open>_handle_error\<close> is called, and
  raises \<^verbatim>\<open>KeyError\<close>.
\<close>

theorem stream_status_without_msg_raises_KeyError:
  \<open>handle_stream_chat_generate_response Some example_loads
     [''data: {"base_resp":{"status_code":1004}}'']
   = \<lparr>events = [], ending = Raised (KeyError (JStr ''status_msg'')), lines_read = 1\<rparr>\<close>
  by (simp add: handle_3)

text \<open>
  C4, amended: when the decoder reaches a line (the lines \<open>pre\<close> before it do not end
  the stream) whose record has a \<^verbatim>\<open>base_resp\<close> with a non-zero integer
  \<^verbatim>\<open>status_code\<close> and a \<^verbatim>\<open>status_msg\<close>, it raises what \<^verbatim>\<open>_handle_error\<close> raises
  for that code and message. The events are those yielded before that line, and no line
  of \<open>rest\<close> is read. For the code 1004 the exception is
  \<open>InvalidAuthenticationError\<close>.
\<close>

theorem stream_raises_mapped_error:
  assumes "ending (handle_stream_chat_generate_response decode loads pre) = Exhausted"
    and "raw \<noteq> []" and "decode raw = Some line"
    and "loads (strip_data_prefix line) = Some data"
    and "py_getitem data ''base_resp'' = Inr base_resp"
    and "py_getitem base_resp ''status_code'' = Inr (JInt code)" and "code \<noteq> 0"
    and "py_getitem base_resp ''status_msg'' = Inr msg"
  shows "handle_stream_chat_generate_response decode loads (pre @ raw # rest) =
           \<lparr>events = events (handle_stream_chat_generate_response decode loads pre),
            ending = Raised (handle_error code msg),
            lines_read = length pre + 1\<rparr> \<and>
         (code = 1004 \<longrightarrow> handle_error code msg = InvalidAuthenticationError msg)"
proof -
  have "check_base_resp data = Some (handle_error code msg)"
    using assms(5-8) by (rule check_base_resp_nonzero)
  then have "handle_line decode loads raw = ([], Fail (handle_error code msg))"
    by (simp add: handle_line_def assms(3,4) handle_record_def)
  then have "handle_stream_chat_generate_response decode loads (raw # rest) =
      \<lparr>events = [], ending = Raised (handle_error code msg), lines_read = 1\<rparr>"
    using assms(2) by simp
  then show ?thesis
    by (simp add: stream_append [OF assms(1)] handle_error_def)
qed

theorem stream_raises_mapped_error_witness:
  \<open>handle_stream_chat_generate_response Some example_loads
     [''data: {"reply":"","choices":[{"delta":"Hi"}]}'',
      [],
      ''data: {"base_resp":{"status_code":1004,"status_msg":"invalid api key"}}'',
      ''data: {"reply":"Hi","usage":{"total_tokens":3},"choices":[{"finish_reason":"stop"}]}'']
   = \<lparr>events = [\<lparr>role = ASSISTANT, content = JStr ''Hi'', usage = None, stop_reason = None\<rparr>],
      ending = Raised (InvalidAuthenticationError (JStr ''invalid api key'')),
      lines_read = 3\<rparr>\<close>
proof -
  have 1: \<open>handle_line Some example_loads ''data: {"reply":"","choices":[{"delta":"Hi"}]}''
             = ([MinimaxMessage (JStr ''Hi'') ASSISTANT], Next)\<close>
    by (simp add: handle_line_def payload_1r example_loads_def record_delta)
  have pre: \<open>handle_stream_chat_generate_response Some example_loads
               [''data: {"reply":"","choices":[{"delta":"Hi"}]}'', []]
             = \<lparr>events = [MinimaxMessage (JStr ''Hi'') ASSISTANT], ending = Exhausted,
                lines_read = 2\<rparr>\<close>
    by (simp add: 1)
  have \<open>handle_stream_chat_generate_response Some example_loads
          ([''data: {"reply":"","choices":[{"delta":"Hi"}]}'', []]
           @ ''data: {"base_resp":{"status_code":1004,"status_msg":"invalid api key"}}''
           # [''data: {"reply":"Hi","usage":{"total_tokens":3},"choices":[{"finish_reason":"stop"}]}''])
        = \<lparr>events = events (handle_stream_chat_generate_response Some example_loads
                            [''data: {"reply":"","choices":[{"delta":"Hi"}]}'', []]),
           ending = Raised (handle_error 1004 (JStr ''invalid api key'')),
           lines_read = length [''data: {"reply":"","choices":[{"delta":"Hi"}]}'', []] + 1\<rparr> \<and>
         ((1004 :: int) = 1004 \<longrightarrow> handle_error 1004 (JStr ''invalid api key'')
            = InvalidAuthenticationError (JStr ''invalid api key''))\<close>
  proof (rule stream_raises_mapped_error)
    show \<open>ending (handle_stream_chat_generate_response Some example_loads
                    [''data: {"reply":"","choices":[{"delta":"Hi"}]}'', []]) = Exhausted\<close>
      unfolding pre by simp
    show \<open>''data: {"base_resp":{"status_code":1004,"status_msg":"invalid api key"}}'' \<noteq> []\<close>
      by simp
    show \<open>Some ''data: {"base_resp":{"status_code":1004,"status_msg":"invalid api key"}}''
            = Some ''data: {"base_resp":{"status_code":1004,"status_msg":"invalid api key"}}''\<close>
      by simp
    show \<open>example_loads (strip_data_prefix
              ''data: {"base_resp":{"status_code":1004,"status_msg":"invalid api key"}}'')
            = Some (JObj [(''base_resp'', JObj [(''status_code'', JInt 1004),
                                                (''status_msg'', JStr ''invalid api key'')])])\<close>
      by (simp add: payload_4 example_loads_def)
    show \<open>py_getitem (JObj [(''base_resp'', JObj [(''status_code'', JInt 1004),
                                                   (''status_msg'', JStr ''invalid api key'')])])
              ''base_resp''
            = Inr (JObj [(''status_code'', JInt 1004), (''status_msg'', JStr ''invalid api key'')])\<close>
      by (simp add: py_getitem_def)
    show \<open>py_getitem (JObj [(''status_code'', JInt 1004), (''status_msg'', JStr ''invalid api key'')])
              ''status_code'' = Inr (JInt 1004)\<close>
      by (simp add: py_getitem_def)
    show \<open>(1004 :: int) \<noteq> 0\<close>
      by simp
    show \<open>py_getitem (JObj [(''status_code'', JInt 1004), (''status_msg'', JStr ''invalid api key'')])
              ''status_msg'' = Inr (JStr ''invalid api key'')\<close>
      by (simp add: py_getitem_def)
  qed
  then show ?thesis
    unfolding pre
    by (simp add: handle_error_def MinimaxMessage_def
        del: handle_stream_chat_generate_response.simps)
qed

lemma yield_deltas_not_Stop: "snd (yield_deltas cs) \<noteq> Stop"
  by (induction cs) (auto split: sum.splits prod.splits)

lemma yield_deltas_usage: "m \<in> set (fst (yield_deltas cs)) \<Longrightarrow> usage m = None"
  by (induction cs) (auto simp: MinimaxMessage_def split: sum.splits prod.splits)

lemma handle_record_Stop:
  assumes "handle_record data = (ms, Stop)"
  shows "\<exists>m. ms = [m] \<and> content m = JStr [] \<and> role m = ASSISTANT \<and> usage m \<noteq> None \<and> stop_reason m \<noteq> None"
proof -
  have nd: "yield_deltas cs \<noteq> (ms, Stop)" for cs
    using yield_deltas_not_Stop [of cs] by auto
  show ?thesis
    using assms nd
    by (auto simp: handle_record_def terminal_message_def and_then_def MinimaxMessage_def
        split: option.splits sum.splits if_splits)
qed

lemma handle_record_usage:
  assumes "m \<in> set (fst (handle_record data))" and "usage m \<noteq> None"
  shows "content m = JStr []"
  using assms yield_deltas_usage
  by (auto simp: handle_record_def terminal_message_def and_then_def MinimaxMessage_def
      split: option.splits sum.splits if_splits)

lemma handle_record_terminal:
  assumes "py_getitem data ''reply'' = Inr reply" and "py_truthy reply"
  shows "(\<forall>m \<in> set (fst (handle_record data)).
            content m = JStr [] \<and> role m = ASSISTANT \<and> usage m \<noteq> None \<and> stop_reason m \<noteq> None) \<and>
         length (fst (handle_record data)) \<le> 1 \<and> snd (handle_record data) \<noteq> Next"
  using assms
  by (auto simp: handle_record_def terminal_message_def and_then_def MinimaxMessage_def
      split: option.splits sum.splits)

lemma handle_line_Stop:
  assumes "handle_line decode loads raw = (ms, Stop)"
  shows "\<exists>m. ms = [m] \<and> content m = JStr [] \<and> role m = ASSISTANT \<and> usage m \<noteq> None \<and> stop_reason m \<noteq> None"
  using assms by (auto simp: handle_line_def split: option.splits dest: handle_record_Stop)

lemma stream_Returned:
  "ending (handle_stream_chat_generate_response decode loads ls) = Returned \<Longrightarrow>
   events (handle_stream_chat_generate_response decode loads ls) \<noteq> [] \<and>
   content (last (events (handle_stream_chat_generate_response decode loads ls))) = JStr [] \<and>
   usage (last (events (handle_stream_chat_generate_response decode loads ls))) \<noteq> None \<and>
   stop_reason (last (events (handle_stream_chat_generate_response decode loads ls))) \<noteq> None"
proof (induction ls)
  case Nil
  then show ?case by simp
next
  case (Cons raw ls)
  show ?case
  proof (cases "raw = []")
    case True
    with Cons show ?thesis by (simp add: Let_def)
  next
    case False
    obtain ms c where h: "handle_line decode loads raw = (ms, c)"
      by (cases "handle_line decode loads raw")
    show ?thesis
    proof (cases c)
      case Next
      with Cons False h show ?thesis by (simp add: Let_def)
    next
      case Stop
      with h handle_line_Stop obtain m where "ms = [m]" "content m = JStr []" "usage m \<noteq> None"
        "stop_reason m \<noteq> None"
        by blast
      with False h Stop show ?thesis by simp
    next
      case (Fail e)
      with Cons.prems False h show ?thesis by simp
    qed
  qed
qed

lemma handle_record_terminal_ok:
  assumes "py_getitem data ''reply'' = Inr reply" and "py_truthy reply"
    and "check_base_resp data = None"
    and "total_tokens_of data = Inr tokens" and "finish_reason_of data = Inr reason"
  shows "handle_record data =
           ([\<lparr>role = ASSISTANT, content = JStr [], usage = Some (usage_of tokens),
              stop_reason = Some reason\<rparr>], Stop)"
  using assms
  by (simp add: handle_record_def terminal_message_def and_then_def MinimaxMessage_def)

text \<open>
  C10. For a record whose \<^verbatim>\<open>reply\<close> is present and true (for a string: non-empty), the
  decoder yields at most one message and never goes on to the next line; any message it
  yields has the empty string as content, role assistant, a usage and a stop reason; and
  it does yield that message when the record has no error status and carries
  \<^verbatim>\<open>usage.total_tokens\<close> and \<^verbatim>\<open>choices[0].finish_reason\<close>. Whenever a whole stream
  ends by the generator returning, its last event is such a message.
\<close>

theorem terminal_message_content_empty:
  "(py_getitem data ''reply'' = Inr reply \<and> py_truthy reply \<longrightarrow>
      (\<forall>m \<in> set (fst (handle_record data)).
         content m = JStr [] \<and> role m = ASSISTANT \<and> usage m \<noteq> None \<and> stop_reason m \<noteq> None) \<and>
      length (fst (handle_record data)) \<le> 1 \<and> snd (handle_record data) \<noteq> Next \<and>
      (check_base_resp data = None \<and> total_tokens_of data = Inr tokens \<and>
       finish_reason_of data = Inr reason \<longrightarrow>
         handle_record data =
           ([\<lparr>role = ASSISTANT, content = JStr [], usage = Some (usage_of tokens),
              stop_reason = Some reason\<rparr>], Stop))) \<and>
   (ending (handle_stream_chat_generate_response decode loads ls) = Returned \<longrightarrow>
      events (handle_stream_chat_generate_response decode loads ls) \<noteq> [] \<and>
      content (last (events (handle_stream_chat_generate_response decode loads ls))) = JStr [] \<and>
      usage (last (events (handle_stream_chat_generate_response decode loads ls))) \<noteq> None \<and>
      stop_reason (last (events (handle_stream_chat_generate_response decode loads ls))) \<noteq> None)"
  using handle_record_terminal [of data reply] handle_record_terminal_ok [of data reply tokens reason]
    stream_Returned [of decode loads ls]
  by blast

theorem terminal_message_content_empty_witness:
  "py_getitem (JObj [(''reply'', JStr ''Hi''),
                     (''usage'', JObj [(''total_tokens'', JInt 3)]),
                     (''choices'', JArr [JObj [(''finish_reason'', JStr ''stop'')]])]) ''reply''
     = Inr (JStr ''Hi'') \<and>
   handle_record (JObj [(''reply'', JStr ''Hi''),
                        (''usage'', JObj [(''total_tokens'', JInt 3)]),
                        (''choices'', JArr [JObj [(''finish_reason'', JStr ''stop'')]])])
     = ([\<lparr>role = ASSISTANT, content = JStr [], usage = Some (usage_of (JInt 3)),
          stop_reason = Some (JStr ''stop'')\<rparr>], Stop)"
  using terminal_message_content_empty
    [of "JObj [(''reply'', JStr ''Hi''),
               (''usage'', JObj [(''total_tokens'', JInt 3)]),
               (''choices'', JArr [JObj [(''finish_reason'', JStr ''stop'')]])]"
        "JStr ''Hi''" "JInt 3" "JStr ''stop''" Some example_loads "[]"]
  by (simp add: py_getitem_def py_truthy_def check_base_resp_def py_contains_def
      total_tokens_of_def finish_reason_of_def py_getitem0_def and_then_def)

section \<open>Properties of the text-embedding adapter\<close>

subsection \<open>Rounding to 53 bits\<close>

lemma bit_length_pos: "0 < n \<Longrightarrow> bit_length n = Suc (bit_length (n div 2))"
  by (subst bit_length.simps) simp

lemma bit_length_bounds:
  "0 < n \<Longrightarrow> 2 ^ (bit_length n - 1) \<le> n \<and> n < 2 ^ bit_length n"
proof (induction n rule: bit_length.induct)
  case (1 n)
  show ?case
  proof (cases "n div 2 = 0")
    case True
    with "1.prems" have "n = 1"
      by (simp add: div_eq_0_iff) 
    then show ?thesis
      by (simp add: bit_length.simps)
  next
    case False
    then have pos: "0 < n div 2"
      by simp
    with "1.IH" "1.prems"
    have IH: "2 ^ (bit_length (n div 2) - 1) \<le> n div 2" "n div 2 < 2 ^ bit_length (n div 2)"
      by simp_all
    obtain b where b: "bit_length (n div 2) = Suc b"
      using bit_length_pos [OF pos] by simp
    have bl: "bit_length n = Suc (Suc b)"
      using bit_length_pos [OF "1.prems"] b by simp
    from IH b have "2 ^ b \<le> n div 2" and "n div 2 < 2 ^ Suc b"
      by simp_all
    moreover have "2 * (n div 2) \<le> n" and "n < 2 * (n div 2) + 2"
      by arith+
    ultimately have "2 * 2 ^ b \<le> n" and "n < 2 * (2 * 2 ^ b)"
      by simp_all
    then have "2 ^ Suc b \<le> n" and "n < 2 ^ Suc (Suc b)"
      by simp_all
    with bl show ?thesis
      by simp
  qed
qed

lemma round_half_even_error:
  assumes "0 < d"
  shows "\<bar>real (round_half_even n d) - real n / real d\<bar> \<le> 1 / 2"
proof -
  define q r where "q = n div d" and "r = n mod d"
  have n: "real n = real q * real d + real r"
    unfolding q_def r_def by (metis div_mult_mod_eq of_nat_add of_nat_mult)
  have r: "r < d"
    unfolding r_def using assms by simp
  have d: "0 < real d"
    using assms by simp
  have quot: "real n / real d = real q + real r / real d"
    using d by (simp add: n field_simps)
  consider "2 * r < d" | "d < 2 * r" | "2 * r = d"
    by linarith
  then show ?thesis
  proof cases
    case 1
    then have "round_half_even n d = q"
      by (simp add: round_half_even_def q_def r_def Let_def)
    moreover from 1 d have "real r / real d \<le> 1 / 2"
      by (simp add: field_simps)
    ultimately show ?thesis
      using d by (simp add: quot)
  next
    case 2
    then have "round_half_even n d = q + 1"
      by (simp add: round_half_even_def q_def r_def Let_def)
    moreover from 2 d have "1 / 2 \<le> real r / real d"
      by (simp add: field_simps)
    moreover from r d have "real r / real d \<le> 1"
      by (simp add: field_simps)
    ultimately show ?thesis
      by (simp add: quot abs_if)
  next
    case 3
    then have rhe: "round_half_even n d = q \<or> round_half_even n d = q + 1"
      by (simp add: round_half_even_def q_def r_def Let_def)
    from 3 have "real d = 2 * real r"
      by (metis of_nat_mult of_nat_numeral)
    with d have "real r / real d = 1 / 2"
      by simp
    then have half: "real n / real d = real q + 1 / 2"
      by (simp only: quot)
    from rhe show ?thesis
    proof
      assume "round_half_even n d = q"
      then show ?thesis
        by (simp only: half; simp)
    next
      assume "round_half_even n d = q + 1"
      then show ?thesis
        by (simp only: half; simp)
    qed
  qed
qed


lemma bit_length_powi:
  assumes "0 < n"
  shows "2 powi (int (bit_length n) - 1) \<le> real n" and "real n < 2 powi int (bit_length n)"
proof -
  from bit_length_bounds [OF assms]
  have 1: "2 ^ (bit_length n - 1) \<le> n" and 2: "n < 2 ^ bit_length n"
    by simp_all
  obtain b where b: "bit_length n = Suc b"
    using bit_length_pos [OF assms] by simp
  from 1 have "real (2 ^ (bit_length n - 1)) \<le> real n"
    by (simp only: of_nat_le_iff)
  then show "2 powi (int (bit_length n) - 1) \<le> real n"
    by (simp add: b)
  from 2 have "real n < real (2 ^ bit_length n)"
    by (simp only: of_nat_less_iff)
  then show "real n < 2 powi int (bit_length n)"
    by simp
qed

lemma quotient_between_powers:
  assumes "0 < n" and "0 < d"
  shows "2 powi (int (bit_length n) - int (bit_length d) - 1) < real n / real d"
    and "real n / real d < 2 powi (int (bit_length n) - int (bit_length d) + 1)"
proof -
  let ?bn = "int (bit_length n)" and ?bd = "int (bit_length d)"
  note n = bit_length_powi [OF assms(1)] and d = bit_length_powi [OF assms(2)]
  have dpos: "0 < real d"
    using assms by simp
  have "2 powi (?bn - ?bd - 1) = 2 powi (?bn - 1) / (2 powi ?bd :: real)"
    by (simp add: power_int_diff)
  also have "\<dots> < 2 powi (?bn - 1) / real d"
    using d(2) dpos by (intro divide_strict_left_mono) simp_all
  also have "\<dots> \<le> real n / real d"
    using n(1) dpos by (intro divide_right_mono) simp_all
  finally show "2 powi (?bn - ?bd - 1) < real n / real d" .
  have "real n / real d < 2 powi ?bn / real d"
    using n(2) dpos by (intro divide_strict_right_mono) simp_all
  also have "\<dots> \<le> 2 powi ?bn / 2 powi (?bd - 1)"
    using d(1) dpos by (intro divide_left_mono) simp_all
  also have "\<dots> = 2 powi (?bn - (?bd - 1))"
    by (rule power_int_diff [symmetric]) simp
  also have "?bn - (?bd - 1) = ?bn - ?bd + 1"
    by simp
  finally show "real n / real d < 2 powi (?bn - ?bd + 1)" .
qed

lemma at_least_pow2_iff:
  assumes "0 < d"
  shows "at_least_pow2 n d k \<longleftrightarrow> 2 powi k \<le> real n / real d"
proof (cases "0 \<le> k")
  case True
  have "d * 2 ^ nat k \<le> n \<longleftrightarrow> real (d * 2 ^ nat k) \<le> real n"
    by (simp only: of_nat_le_iff)
  also have "\<dots> \<longleftrightarrow> 2 ^ nat k \<le> real n / real d"
    using assms by (simp add: field_simps)
  finally show ?thesis
    using True by (simp add: at_least_pow2_def power_int_def)
next
  case False
  have "d \<le> n * 2 ^ nat (- k) \<longleftrightarrow> real d \<le> real (n * 2 ^ nat (- k))"
    by (simp only: of_nat_le_iff)
  also have "\<dots> \<longleftrightarrow> 1 / 2 ^ nat (- k) \<le> real n / real d"
    using assms by (simp add: field_simps)
  finally show ?thesis
    using False by (simp add: at_least_pow2_def power_int_def power_one_over)
qed

lemma round53_bounds:
  assumes "0 < n" and "0 < d" and "round53 n d = (m, e)"
  shows "2 powi (e + 52) \<le> real n / real d" and "real n / real d < 2 powi (e + 53)"
proof -
  let ?k = "int (bit_length n) - int (bit_length d)"
  note q = quotient_between_powers [OF assms(1,2)]
  from assms(3) have e: "e + 52 = (if at_least_pow2 n d ?k then ?k else ?k - 1)"
    by (auto simp: round53_def Let_def)
  show "2 powi (e + 52) \<le> real n / real d"
    using q(1) by (simp add: e at_least_pow2_iff [OF assms(2)])
  have "e + 53 = (e + 52) + 1"
    by simp
  then show "real n / real d < 2 powi (e + 53)"
    using q(2) by (simp only: e) (simp add: at_least_pow2_iff [OF assms(2)] not_le)
qed

lemma round53_scaled:
  assumes "0 < d" and "round53 n d = (m, e)"
  shows "\<bar>real m - real n / real d * 2 powi (- e)\<bar> \<le> 1 / 2"
proof (cases "0 \<le> e")
  case True
  with assms(2) have m: "m = round_half_even n (d * 2 ^ nat e)"
    by (auto simp: round53_def Let_def)
  have eq: "real n / real (d * 2 ^ nat e) = real n / real d * 2 powi (- e)"
    using True by (simp add: power_int_def field_simps)
  have "\<bar>real (round_half_even n (d * 2 ^ nat e)) - real n / real (d * 2 ^ nat e)\<bar> \<le> 1 / 2"
    using assms(1) by (intro round_half_even_error) simp
  then show ?thesis
    by (simp only: m eq)
next
  case False
  with assms(2) have m: "m = round_half_even (n * 2 ^ nat (- e)) d"
    by (auto simp: round53_def Let_def)
  have "(2 :: real) powi (- e) = 2 ^ nat (- e)"
    using False by (simp add: power_int_def)
  then have eq: "real (n * 2 ^ nat (- e)) / real d = real n / real d * 2 powi (- e)"
    by simp
  have "\<bar>real (round_half_even (n * 2 ^ nat (- e)) d) - real (n * 2 ^ nat (- e)) / real d\<bar>
          \<le> 1 / 2"
    using assms(1) by (rule round_half_even_error)
  then show ?thesis
    by (simp only: m eq)
qed

lemma round53_error:
  assumes "0 < n" and "0 < d" and "round53 n d = (m, e)"
  shows "\<bar>real m * 2 powi e - real n / real d\<bar> \<le> real n / real d / 2 ^ 53"
proof -
  let ?x = "real n / real d"
  have p: "0 < (2 :: real) powi e"
    by simp
  have "real m * 2 powi e - ?x = (real m - ?x * 2 powi (- e)) * 2 powi e"
    by (simp add: algebra_simps power_int_minus)
  then have "\<bar>real m * 2 powi e - ?x\<bar> = \<bar>real m - ?x * 2 powi (- e)\<bar> * 2 powi e"
    by (simp add: abs_mult)
  also have "\<dots> \<le> 1 / 2 * 2 powi e"
    using round53_scaled [OF assms(2,3)] p by (intro mult_right_mono) simp_all
  also have "\<dots> = 2 powi (e + 52) / 2 ^ 53"
    by (simp add: power_int_add)
  also have "\<dots> \<le> ?x / 2 ^ 53"
    using round53_bounds(1) [OF assms] by (intro divide_right_mono) simp_all
  finally show ?thesis .
qed


lemma float_round_mag:
  assumes "0 < d"
  shows "\<bar>float_mag (float_round s n d x) - real n / real d * 2 powi x\<bar>
           \<le> real n / real d * 2 powi x / 2 ^ 53"
proof (cases "n = 0")
  case True
  then show ?thesis
    by (simp add: float_round_def float_mag_def)
next
  case False
  then have n: "0 < n"
    by simp
  obtain m e where r: "round53 n d = (m, e)"
    by (cases "round53 n d")
  let ?y = "real n / real d"
  have "float_mag (float_round s n d x) = real m * 2 powi e * 2 powi x"
    using False by (simp add: float_round_def r float_mag_def power_int_add)
  then have "float_mag (float_round s n d x) - ?y * 2 powi x = (real m * 2 powi e - ?y) * 2 powi x"
    by (simp add: algebra_simps)
  then have "\<bar>float_mag (float_round s n d x) - ?y * 2 powi x\<bar>
               = \<bar>real m * 2 powi e - ?y\<bar> * 2 powi x"
    by (simp add: abs_mult)
  also have "\<dots> \<le> ?y / 2 ^ 53 * 2 powi x"
    using round53_error [OF n assms r] by (intro mult_right_mono) simp_all
  finally show ?thesis
    by simp
qed

lemma float_round_negative: "negative (float_round s n d x) = s"
  by (simp add: float_round_def split: prod.splits)

lemma rel_error_bounds:
  fixes x y K :: real
  assumes "\<bar>x - y\<bar> \<le> y / K"
  shows "x \<le> (1 + 1 / K) * y" and "(1 - 1 / K) * y \<le> x"
proof -
  have 1: "(1 + 1 / K) * y = y + y / K" and 2: "(1 - 1 / K) * y = y - y / K"
    by (simp_all add: algebra_simps)
  from assms have "x - y \<le> y / K" and "y - x \<le> y / K"
    by (simp_all add: abs_le_iff)
  then show "x \<le> (1 + 1 / K) * y" and "(1 - 1 / K) * y \<le> x"
    unfolding 1 2 by linarith+
qed

lemma three_roundings:
  fixes a b f q z :: real
  assumes "0 \<le> a" and "0 \<le> b"
    and f: "\<bar>f - a\<bar> \<le> a / 2 ^ 53" and q: "\<bar>q - b\<bar> \<le> b / 2 ^ 53"
    and z: "\<bar>z - f * q\<bar> \<le> f * q / 2 ^ 53"
  shows "\<bar>z - a * b\<bar> \<le> a * b / 2 ^ 51"
proof -
  define u :: real where "u = 1 / 2 ^ 53"
  have u: "0 \<le> u" "0 \<le> 1 - u" "0 \<le> 1 + u"
    by (simp_all add: u_def)
  have up: "(1 + u) * ((1 + u) * (1 + u)) \<le> 1 + 4 * u"
    and lo: "1 - 4 * u \<le> (1 - u) * ((1 - u) * (1 - u))"
    by (simp_all add: u_def)
  have ab: "0 \<le> a * b"
    using assms(1,2) by simp
  from f have f1: "f \<le> (1 + u) * a" and f2: "(1 - u) * a \<le> f"
    unfolding u_def by (rule rel_error_bounds)+
  from q have q1: "q \<le> (1 + u) * b" and q2: "(1 - u) * b \<le> q"
    unfolding u_def by (rule rel_error_bounds)+
  have ua: "0 \<le> (1 - u) * a" and ub: "0 \<le> (1 - u) * b" and va: "0 \<le> (1 + u) * a"
    using u assms(1,2) by simp_all
  have f0: "0 \<le> f" and q0: "0 \<le> q"
    using f2 ua q2 ub by linarith+
  have fq1: "f * q \<le> ((1 + u) * a) * ((1 + u) * b)"
    using f1 q1 va q0 by (rule mult_mono)
  have fq2: "((1 - u) * a) * ((1 - u) * b) \<le> f * q"
    using f2 q2 f0 ub by (rule mult_mono)
  from z have z1: "z \<le> (1 + u) * (f * q)" and z2: "(1 - u) * (f * q) \<le> z"
    unfolding u_def by (rule rel_error_bounds)+
  have "(1 + u) * (f * q) \<le> (1 + u) * (((1 + u) * a) * ((1 + u) * b))"
    using fq1 u(3) by (rule mult_left_mono)
  with z1 have "z \<le> (1 + u) * (((1 + u) * a) * ((1 + u) * b))"
    by linarith
  also have "\<dots> = ((1 + u) * ((1 + u) * (1 + u))) * (a * b)"
    by (simp add: algebra_simps)
  also have "\<dots> \<le> (1 + 4 * u) * (a * b)"
    using up ab by (rule mult_right_mono)
  finally have upper: "z - a * b \<le> 4 * u * (a * b)"
    by (simp add: algebra_simps)
  have "(1 - u) * (((1 - u) * a) * ((1 - u) * b)) \<le> (1 - u) * (f * q)"
    using fq2 u(2) by (rule mult_left_mono)
  with z2 have low: "(1 - u) * (((1 - u) * a) * ((1 - u) * b)) \<le> z"
    by linarith
  have "(1 - 4 * u) * (a * b) \<le> ((1 - u) * ((1 - u) * (1 - u))) * (a * b)"
    using lo ab by (rule mult_right_mono)
  also have "\<dots> = (1 - u) * (((1 - u) * a) * ((1 - u) * b))"
    by (simp add: algebra_simps)
  also note low
  finally have lower: "- (4 * u * (a * b)) \<le> z - a * b"
    by (simp add: algebra_simps)
  have e: "4 * u * (a * b) = a * b / 2 ^ 51"
    by (simp add: u_def)
  from upper lower have "\<bar>z - a * b\<bar> \<le> 4 * u * (a * b)"
    by linarith
  then show ?thesis
    by (simp only: e)
qed

lemma floor_near_quotient:
  fixes z :: real
  assumes "0 < E" and "a < 2 ^ 51"
    and z: "\<bar>z - real a / real E\<bar> \<le> real a / real E / 2 ^ 51"
  shows "\<lfloor>z\<rfloor> \<le> int (a div E)" and "int (a div E) - 1 \<le> \<lfloor>z\<rfloor>"
    and "\<not> E dvd a \<Longrightarrow> \<lfloor>z\<rfloor> = int (a div E)"
proof -
  have E: "0 < real E"
    using assms(1) by simp
  have "real a / 2 ^ 51 < 1"
    using assms(2) by simp
  then have "real a / real E / 2 ^ 51 < 1 / real E"
    using E by (simp add: field_simps)
  with z have "\<bar>z - real a / real E\<bar> < 1 / real E"
    by linarith
  then have "\<bar>z * real E - real a\<bar> < 1"
    using E by (simp add: field_simps abs_less_iff)
  then have lt: "z * real E < real a + 1" and gt: "real a - 1 < z * real E"
    by (simp_all add: abs_less_iff algebra_simps)
  define q r where "q = a div E" and "r = a mod E"
  have a: "real a = real q * real E + real r"
    unfolding q_def r_def by (metis div_mult_mod_eq of_nat_add of_nat_mult)
  have r: "real r + 1 \<le> real E"
    using assms(1) unfolding r_def
    by (metis Suc_leI mod_less_divisor of_nat_Suc of_nat_le_iff add.commute)
  have "z * real E < (real q + 1) * real E"
    using lt r by (simp add: a algebra_simps)
  then have "z < real q + 1"
    using E by simp
  then show 1: "\<lfloor>z\<rfloor> \<le> int (a div E)"
    by (simp add: q_def floor_le_iff)
  have "(real q - 1) * real E < z * real E"
    using gt E by (simp add: a algebra_simps) 
  then have "real q - 1 < z"
    using E by simp
  then show "int (a div E) - 1 \<le> \<lfloor>z\<rfloor>"
    by (simp add: q_def le_floor_iff)
  assume "\<not> E dvd a"
  then have "0 < r"
    unfolding r_def by (simp add: dvd_eq_mod_eq_0)
  then have "1 \<le> real r"
    by simp
  then have "real q * real E < z * real E"
    using gt by (simp add: a)
  then have "real q \<le> z"
    using E by simp
  then have "int (a div E) \<le> \<lfloor>z\<rfloor>"
    by (simp add: q_def le_floor_iff)
  with 1 show "\<lfloor>z\<rfloor> = int (a div E)"
    by simp
qed

lemma int_of_float_floor:
  assumes "\<not> negative x"
  shows "int_of_float x = \<lfloor>float_mag x\<rfloor>"
proof (cases "0 \<le> exponent x")
  case True
  then have "float_mag x = real (significand x * 2 ^ nat (exponent x))"
    by (simp add: float_mag_def power_int_def)
  then have "\<lfloor>float_mag x\<rfloor> = int (significand x * 2 ^ nat (exponent x))"
    by (simp only: floor_of_nat)
  with True assms show ?thesis
    by (simp add: int_of_float_def)
next
  case False
  then have "float_mag x = real (significand x) / real (2 ^ nat (- exponent x))"
    by (simp add: float_mag_def power_int_def field_simps)
  then have "\<lfloor>float_mag x\<rfloor> = int (significand x div 2 ^ nat (- exponent x))"
    by (simp only: floor_divide_of_nat_eq)
  with False assms show ?thesis
    by (simp add: int_of_float_def)
qed

subsection \<open>Truncation\<close>

lemma text_cutoff_float:
  fixes L E :: nat and C :: int
  assumes "1 \<le> C" and "C \<le> int E"
  defines "z \<equiv> float_mul (float_of_int (int L)) (float_round False (nat C) E 0)"
  shows "text_cutoff L C E = Inr (int_of_float z)"
    and "\<not> negative z"
    and "\<bar>float_mag z - real (L * nat C) / real E\<bar> \<le> real (L * nat C) / real E / 2 ^ 51"
proof -
  from assms(1,2) have E: "0 < E" and C: "0 < nat C"
    by simp_all
  let ?f = "float_round False L 1 0" and ?q = "float_round False (nat C) E 0"
  have f_def: "float_of_int (int L) = ?f"
    by (simp add: float_of_int_def)
  have "int_truediv C (int E) = Inr ?q"
    using assms(1) E by (simp add: int_truediv_def)
  then show "text_cutoff L C E = Inr (int_of_float z)"
    by (simp add: text_cutoff_def and_then_def z_def)
  have z: "z = float_round False (significand ?f * significand ?q) 1 (exponent ?f + exponent ?q)"
    by (simp add: z_def f_def float_mul_def float_round_negative)
  show "\<not> negative z"
    by (simp add: z float_round_negative)
  have f: "\<bar>float_mag ?f - real L\<bar> \<le> real L / 2 ^ 53"
    using float_round_mag [of 1 False L 0] by simp
  have q: "\<bar>float_mag ?q - real (nat C) / real E\<bar> \<le> real (nat C) / real E / 2 ^ 53"
    using float_round_mag [OF E, of False "nat C" 0] by simp
  have prod: "real (significand ?f * significand ?q) / real 1 * 2 powi (exponent ?f + exponent ?q)
                = float_mag ?f * float_mag ?q"
    by (simp add: float_mag_def power_int_add)
  have zz: "\<bar>float_mag z - float_mag ?f * float_mag ?q\<bar> \<le> float_mag ?f * float_mag ?q / 2 ^ 53"
    using float_round_mag [of 1 False "significand ?f * significand ?q" "exponent ?f + exponent ?q"]
    unfolding prod z by simp
  have "\<bar>float_mag z - real L * (real (nat C) / real E)\<bar> \<le> real L * (real (nat C) / real E) / 2 ^ 51"
    using _ _ f q zz by (rule three_roundings) simp_all
  then show "\<bar>float_mag z - real (L * nat C) / real E\<bar> \<le> real (L * nat C) / real E / 2 ^ 51"
    by simp
qed

lemma text_cutoff_nat:
  assumes "1 \<le> C" and "C \<le> int E"
  shows "\<exists>c. text_cutoff L C E = Inr (int c)"
proof -
  let ?z = "float_mul (float_of_int (int L)) (float_round False (nat C) E 0)"
  note z = text_cutoff_float [OF assms, where L = L]
  have "0 \<le> float_mag ?z"
    by (simp add: float_mag_def)
  then have "0 \<le> int_of_float ?z"
    by (simp add: int_of_float_floor [OF z(2)])
  then obtain c where "int_of_float ?z = int c"
    using nonneg_int_cases by blast
  with z(1) show ?thesis
    by auto
qed

lemma text_cutoff_bounds:
  assumes "1 \<le> C" and "C \<le> int E" and "L * nat C < 2 ^ 51" and "text_cutoff L C E = Inr (int c)"
  shows "c \<le> L * nat C div E" and "L * nat C div E \<le> c + 1"
    and "\<not> E dvd L * nat C \<Longrightarrow> c = L * nat C div E" and "c \<le> L"
proof -
  let ?z = "float_mul (float_of_int (int L)) (float_round False (nat C) E 0)"
  note z = text_cutoff_float [OF assms(1,2), where L = L]
  from assms(1,2) have E: "0 < E"
    by simp
  from z(1) assms(4) have c: "int c = \<lfloor>float_mag ?z\<rfloor>"
    by (simp add: int_of_float_floor [OF z(2)])
  note fl = floor_near_quotient [OF E assms(3) z(3)]
  from fl(1) show 1: "c \<le> L * nat C div E"
    by (simp add: c [symmetric])
  from fl(2) show "L * nat C div E \<le> c + 1"
    by (simp add: c [symmetric])
  show "c = L * nat C div E" if "\<not> E dvd L * nat C"
    using fl(3) [OF that] by (simp add: c [symmetric])
  have "nat C \<le> E"
    using assms(1,2) by simp
  then have "L * nat C \<le> L * E"
    by simp
  then have "L * nat C div E \<le> L"
    using E by (metis div_le_mono nonzero_mult_div_cancel_right less_numeral_extra(3))
  with 1 show "c \<le> L"
    by simp
qed

lemma truncate_text_small:
  "int (est text) < context_size \<Longrightarrow> truncate_text est context_size text = Inr (text, est text)"
  by (simp add: truncate_text_def)

lemma truncate_text_cut:
  assumes "context_size \<le> int (est text)"
    and "text_cutoff (length text) context_size (est text) = Inr (int c)"
  shows "truncate_text est context_size text = Inr (take c text, est text)"
  using assms by (simp add: truncate_text_def py_slice_to_def)

lemma truncate_text_tokens:
  "truncate_text est context_size text = Inr (input, n) \<Longrightarrow> n = est text"
  by (auto simp: truncate_text_def Let_def split: if_splits sum.splits)

lemma truncate_text_total:
  assumes "1 \<le> context_size"
  shows "\<exists>input. truncate_text est context_size text = Inr (input, est text)"
proof (cases "context_size \<le> int (est text)")
  case True
  from text_cutoff_nat [OF assms True]
  obtain c where "text_cutoff (length text) context_size (est text) = Inr (int c)"
    by blast
  with True show ?thesis
    by (auto dest: truncate_text_cut)
next
  case False
  then show ?thesis
    by (simp add: truncate_text_small)
qed

text \<open>
  C2, as stated: a text of 161 characters with an estimate of 644 tokens and a context
  size of 512 is cut to 127 characters, while \<open>\<lfloor>161 * 512 / 644\<rfloor> = 128\<close>. The
  quotient \<^verbatim>\<open>512 / 644\<close> is rounded down to the nearest double, and the product with
  161 stays just below 128.
\<close>

theorem truncation_is_not_floor:
  "truncate_text (\<lambda>t. 4 * length t) 512 (replicate 161 (CHR ''a''))
     = Inr (replicate 127 (CHR ''a''), 644) \<and>
   127 \<noteq> 161 * 512 div (644 :: nat)"
  by (simp add: truncate_text_def text_cutoff_def and_then_def int_truediv_def float_of_int_def
      float_mul_def float_round_def round53_def bit_length.simps at_least_pow2_def
      round_half_even_def Let_def int_of_float_def py_slice_to_def)

text \<open>
  C2, amended. For a context size of at least 1: a text whose estimate is below the
  context size passes unmodified; a text whose estimate reaches it is replaced by its
  prefix of \<^verbatim>\<open>int(L * (C / estimate))\<close> characters, quotient and product computed in
  double precision; when \<open>L * C < 2 ^ 51\<close> that prefix length is
  \<open>\<lfloor>L * C / estimate\<rfloor>\<close> or one less, and it is \<open>\<lfloor>L * C / estimate\<rfloor>\<close>
  whenever the estimate does not divide \<open>L * C\<close>; the empty text, when its estimate
  is zero, passes unmodified and without error.
\<close>

theorem truncate_text_prefix:
  assumes "1 \<le> context_size"
  shows "(int (est text) < context_size \<longrightarrow>
            truncate_text est context_size text = Inr (text, est text)) \<and>
         (context_size \<le> int (est text) \<longrightarrow>
            (\<exists>cutoff. text_cutoff (length text) context_size (est text) = Inr (int cutoff) \<and>
               truncate_text est context_size text = Inr (take cutoff text, est text) \<and>
               (length text * nat context_size < 2 ^ 51 \<longrightarrow>
                  length (take cutoff text) = cutoff \<and>
                  cutoff \<le> length text * nat context_size div est text \<and>
                  length text * nat context_size div est text \<le> cutoff + 1 \<and>
                  (\<not> est text dvd length text * nat context_size \<longrightarrow>
                     cutoff = length text * nat context_size div est text)))) \<and>
         (est [] = 0 \<longrightarrow> truncate_text est context_size [] = Inr ([], 0))"
proof (intro conjI impI)
  assume "int (est text) < context_size"
  then show "truncate_text est context_size text = Inr (text, est text)"
    by (rule truncate_text_small)
next
  assume le: "context_size \<le> int (est text)"
  from text_cutoff_nat [OF assms le]
  obtain c where c: "text_cutoff (length text) context_size (est text) = Inr (int c)"
    by blast
  have "truncate_text est context_size text = Inr (take c text, est text)"
    using le c by (rule truncate_text_cut)
  moreover have "length (take c text) = c \<and>
      c \<le> length text * nat context_size div est text \<and>
      length text * nat context_size div est text \<le> c + 1 \<and>
      (\<not> est text dvd length text * nat context_size \<longrightarrow>
         c = length text * nat context_size div est text)"
    if "length text * nat context_size < 2 ^ 51"
    using text_cutoff_bounds [OF assms le that c] by simp
  ultimately show "\<exists>cutoff. text_cutoff (length text) context_size (est text) = Inr (int cutoff) \<and>
               truncate_text est context_size text = Inr (take cutoff text, est text) \<and>
               (length text * nat context_size < 2 ^ 51 \<longrightarrow>
                  length (take cutoff text) = cutoff \<and>
                  cutoff \<le> length text * nat context_size div est text \<and>
                  length text * nat context_size div est text \<le> cutoff + 1 \<and>
                  (\<not> est text dvd length text * nat context_size \<longrightarrow>
                     cutoff = length text * nat context_size div est text))"
    using c by blast
next
  assume "est [] = 0"
  with assms show "truncate_text est context_size [] = Inr ([], 0)"
    by (simp add: truncate_text_def)
qed

theorem truncate_text_prefix_witness:
  "truncate_text (\<lambda>t. 3 * length t) 512 (replicate 1000 (CHR ''a''))
     = Inr (replicate 170 (CHR ''a''), 3000) \<and>
   truncate_text (\<lambda>t. 3 * length t) 512 (replicate 100 (CHR ''a''))
     = Inr (replicate 100 (CHR ''a''), 300) \<and>
   truncate_text (\<lambda>t. 3 * length t) 512 [] = Inr ([] :: string, 0)"
  using truncate_text_prefix [of 512 "\<lambda>t. 3 * length t" "replicate 1000 (CHR ''a'')"]
    truncate_text_prefix [of 512 "\<lambda>t. 3 * length t" "replicate 100 (CHR ''a'')"]
  by auto

text \<open>
  Why the context size is taken to be at least 1: with a context size of zero or below, a
  text of no tokens satisfies the test of line 78, and line 80 divides by zero.
\<close>

lemma truncate_text_zero_tokens:
  "context_size \<le> 0 \<Longrightarrow> est t = 0 \<Longrightarrow> truncate_text est context_size t = Inl ZeroDivisionError"
  by (simp add: truncate_text_def text_cutoff_def int_truediv_def and_then_def)

subsection \<open>Batches\<close>

lemma prepare_inputs_Inr:
  "prepare_inputs est context_size i texts st = Inr st' \<Longrightarrow>
   (\<exists>new. inputs st' = inputs st @ new \<and>
      list_all2 (\<lambda>input t. truncate_text est context_size t = Inr (input, est t)) new texts) \<and>
   used_tokens st' = used_tokens st + sum_list (map est texts)"
proof (induction texts arbitrary: i st)
  case Nil
  then show ?case by simp
next
  case (Cons x xs)
  from Cons.prems obtain input n where
    t: "truncate_text est context_size x = Inr (input, n)"
    by (auto split: sum.splits)
  then have n: "n = est x"
    by (rule truncate_text_tokens)
  let ?st = "\<lparr>inputs = inputs st @ [input], indices = indices st @ [i],
             used_tokens = used_tokens st + n\<rparr>"
  from Cons.prems t have "prepare_inputs est context_size (Suc i) xs ?st = Inr st'"
    by simp
  from Cons.IH [OF this] obtain new where new: "inputs st' = inputs ?st @ new"
    and all: "list_all2 (\<lambda>input t. truncate_text est context_size t = Inr (input, est t)) new xs"
    and used: "used_tokens st' = used_tokens ?st + sum_list (map est xs)"
    by blast
  from new have "inputs st' = inputs st @ (input # new)"
    by simp
  moreover from all t n
  have "list_all2 (\<lambda>input t. truncate_text est context_size t = Inr (input, est t))
          (input # new) (x # xs)"
    by simp
  ultimately show ?case
    using used n by (intro conjI exI [of _ "input # new"]) simp_all
qed

lemma prepare_inputs_start:
  assumes "prepare_inputs est context_size 0 texts \<lparr>inputs = [], indices = [], used_tokens = 0\<rparr>
             = Inr prep"
  shows "list_all2 (\<lambda>input t. truncate_text est context_size t = Inr (input, est t))
           (inputs prep) texts"
    and "length (inputs prep) = length texts"
    and "used_tokens prep = sum_list (map est texts)"
proof -
  from prepare_inputs_Inr [OF assms]
  show 1: "list_all2 (\<lambda>input t. truncate_text est context_size t = Inr (input, est t))
           (inputs prep) texts"
    and "used_tokens prep = sum_list (map est texts)"
    by auto
  from 1 show "length (inputs prep) = length texts"
    by (rule list_all2_lengthD)
qed

lemma prepare_inputs_total:
  assumes "1 \<le> context_size"
  shows "\<exists>st'. prepare_inputs est context_size i texts st = Inr st'"
proof (induction texts arbitrary: i st)
  case Nil
  show ?case by simp
next
  case (Cons x xs)
  from truncate_text_total [OF assms]
  obtain input where "truncate_text est context_size x = Inr (input, est x)"
    by blast
  with Cons show ?case
    by simp
qed

lemma concat_slices:
  "length xs \<le> c * m \<Longrightarrow> concat (map (\<lambda>k. take m (drop (k * m) xs)) [0 ..< c]) = xs"
proof (induction c arbitrary: xs)
  case 0
  then show ?case by simp
next
  case (Suc c)
  have "[0 ..< Suc c] = 0 # map Suc [0 ..< c]"
    by (simp add: upt_conv_Cons map_Suc_upt del: upt_Suc)
  then have "concat (map (\<lambda>k. take m (drop (k * m) xs)) [0 ..< Suc c])
      = take m xs @ concat (map (\<lambda>k. take m (drop (k * m) (drop m xs))) [0 ..< c])"
    by (simp add: o_def add.commute del: upt_Suc)
  also have "concat (map (\<lambda>k. take m (drop (k * m) (drop m xs))) [0 ..< c]) = drop m xs"
    using Suc.prems by (intro Suc.IH) simp
  finally show ?case
    by simp
qed

lemma ceil_div_covers:
  assumes "0 < (m :: nat)"
  shows "n \<le> (n + m - 1) div m * m"
proof -
  have "(n + m - 1) div m * m = (n + m - 1) - (n + m - 1) mod m"
    by (simp add: minus_mod_eq_div_mult)
  moreover have "(n + m - 1) mod m \<le> m - 1"
    using assms by (metis Suc_pred' less_Suc_eq_le mod_less_divisor)
  ultimately show ?thesis
    using assms by linarith
qed

lemma chunks_of_pos:
  assumes "1 \<le> M"
  shows "chunks_of M xs = map (\<lambda>k. take (nat M) (drop (k * nat M) xs))
                              [0 ..< (length xs + nat M - 1) div nat M]"
  using assms by (simp add: chunks_of_def py_range_def o_def)

lemma chunks_of_props:
  assumes "1 \<le> M"
  shows "length (chunks_of M xs) = (length xs + nat M - 1) div nat M"
    and "\<forall>c \<in> set (chunks_of M xs). 0 < length c \<and> int (length c) \<le> M"
    and "concat (chunks_of M xs) = xs"
proof -
  let ?m = "nat M"
  from assms have m: "0 < ?m"
    by simp
  show "length (chunks_of M xs) = (length xs + ?m - 1) div ?m"
    by (simp add: chunks_of_pos [OF assms])
  show "concat (chunks_of M xs) = xs"
    unfolding chunks_of_pos [OF assms]
    by (rule concat_slices) (rule ceil_div_covers [OF m])
  show "\<forall>c \<in> set (chunks_of M xs). 0 < length c \<and> int (length c) \<le> M"
  proof
    fix c assume "c \<in> set (chunks_of M xs)"
    then obtain k where k: "k < (length xs + ?m - 1) div ?m" and c: "c = take ?m (drop (k * ?m) xs)"
      by (auto simp: chunks_of_pos [OF assms])
    from k have "Suc k * ?m \<le> (length xs + ?m - 1) div ?m * ?m"
      by (intro mult_le_mono1) simp
    also have "\<dots> \<le> length xs + ?m - 1"
      by simp
    finally have "k * ?m < length xs"
      using m by simp
    with m show "0 < length c \<and> int (length c) \<le> M"
      using assms by (simp add: c)
  qed
qed

lemma fst_call_each_Cons:
  "fst (call_each h w (c # cs)) = fst (h w c) # fst (call_each h (snd (h w c)) cs)"
  by (simp split: prod.splits)

lemma snd_call_each_Cons:
  "snd (call_each h w (c # cs)) = snd (call_each h (snd (h w c)) cs)"
  by (simp split: prod.splits)

lemma length_call_each: "length (fst (call_each h w cs)) = length cs"
  by (induction cs arbitrary: w) (simp_all add: fst_call_each_Cons del: call_each.simps(2))

lemma up_to_failure_simps:
  "up_to_failure [] = 0"
  "up_to_failure (Inl e # rs) = 1"
  "up_to_failure (Inr a # rs) = Suc (up_to_failure rs)"
  by (simp_all add: up_to_failure_def)

lemma up_to_failure_all: "\<forall>r \<in> set rs. \<not> isl r \<Longrightarrow> up_to_failure rs = length rs"
  by (simp add: up_to_failure_def takeWhile_eq_all_conv [THEN iffD2])

text \<open>
  The loop of lines 90 to 95 calls the helper once for each batch, in order, from the
  first batch up to and including the first whose call fails or whose response cannot be
  read, and for no other; it ends with the exception of that batch, or, when there is
  none, with the embeddings of all the responses, in order.
\<close>

lemma embed_batches_run:
  fixes st :: "'w batching" and cfg :: settings and M :: int and xs :: "'c list list"
  defines "calls starts \<equiv> map (\<lambda>i. call_of cfg (take (nat M) (drop i xs))) starts"
  shows "embed_batches h cfg M xs starts st = (r, st') \<Longrightarrow>
     world st' = snd (call_each h (world st)
        (take (up_to_failure (map response_embeddings (fst (call_each h (world st) (calls starts)))))
           (calls starts))) \<and>
     r = map_option projl (find isl (map response_embeddings (fst (call_each h (world st) (calls starts))))) \<and>
     (r = None \<longrightarrow>
        batched_embeddings st' = batched_embeddings st
          @ concat (map projr (map response_embeddings (fst (call_each h (world st) (calls starts))))))"
proof (induction starts arbitrary: st)
  case Nil
  then show ?case
    by (auto simp: calls_def up_to_failure_simps)
next
  case (Cons i rest)
  let ?c = "call_of cfg (take (nat M) (drop i xs))"
  obtain results w where h: "h (world st) ?c = (results, w)"
    by (cases "h (world st) ?c")
  have cs: "calls (i # rest) = ?c # calls rest"
    by (simp add: calls_def)
  show ?case
  proof (cases "response_embeddings results")
    case (Inl e)
    with Cons.prems h have "r = Some e" and "st' = st\<lparr>world := w\<rparr>"
      by (simp_all add: Let_def)
    with Inl h show ?thesis
      unfolding cs fst_call_each_Cons
      by (simp add: up_to_failure_simps)
  next
    case (Inr es)
    let ?st = "st\<lparr>world := w, batched_embeddings := batched_embeddings st @ es\<rparr>"
    from Cons.prems h Inr have "embed_batches h cfg M xs rest ?st = (r, st')"
      by (simp add: Let_def)
    from Cons.IH [OF this] Inr h show ?thesis
      unfolding cs fst_call_each_Cons
      by (simp add: up_to_failure_simps snd_call_each_Cons del: call_each.simps)
  qed
qed

text \<open>\<^verbatim>\<open>_invoke\<close> once the settings are read and the inputs prepared, for a batch size
  of at least 1.\<close>

lemma invoke_run:
  assumes "read_settings int_of_str fmt credentials = Inr cfg"
    and "prepare_inputs est context_size 0 texts \<lparr>inputs = [], indices = [], used_tokens = 0\<rparr>
           = Inr prep"
    and "1 \<le> max_chunks"
    and "calls = map (call_of cfg) (chunks_of max_chunks (inputs prep))"
    and "answers = map response_embeddings (fst (call_each h w calls))"
  shows "invoke int_of_str fmt est get_price validate h context_size max_chunks model
           credentials texts w
         = (case find isl answers of
              Some a \<Rightarrow> Inl (except_runtime_error (projl a))
            | None \<Rightarrow> TextEmbeddingResult validate model (concat (map projr answers))
                        (calc_response_usage get_price (used_tokens prep)),
            snd (call_each h w (take (up_to_failure answers) calls)))"
proof -
  obtain starts where s: "py_range (length (inputs prep)) max_chunks = Inr starts"
    using assms(3) by (simp add: py_range_def)
  then have ch: "calls = map (\<lambda>i. call_of cfg (take (nat max_chunks) (drop i (inputs prep)))) starts"
    by (simp add: assms(4) chunks_of_def o_def)
  obtain r st where eb: "embed_batches h cfg max_chunks (inputs prep) starts
      \<lparr>batched_embeddings = [], world = w\<rparr> = (r, st)"
    by (cases "embed_batches h cfg max_chunks (inputs prep) starts
      \<lparr>batched_embeddings = [], world = w\<rparr>")
  from embed_batches_run [OF eb]
  have w: "world st = snd (call_each h w (take (up_to_failure answers) calls))"
    and r: "r = map_option projl (find isl answers)"
    and b: "r = None \<longrightarrow> batched_embeddings st = concat (map projr answers)"
    by (simp_all add: ch [symmetric] assms(5) [symmetric])
  show ?thesis
  proof (cases "find isl answers")
    case None
    with r b w show ?thesis
      by (simp add: invoke_def assms(1,2) s eb)
  next
    case (Some a)
    with r w show ?thesis
      by (simp add: invoke_def assms(1,2) s eb)
  qed
qed

lemma embedding_fields_in_order:
  "list_all2 (\<lambda>object t. py_getitem object ''embedding'' = Inr (emb t)) objects ts
   \<Longrightarrow> embedding_fields objects = Inr (map emb ts)"
  by (induction rule: list_all2_induct) (simp_all add: and_then_def)

lemma answers_in_order_each:
  assumes "answers_in_order h emb"
  shows "map response_embeddings (fst (call_each h w calls))
           = map (\<lambda>c. Inr (map emb (call_texts c))) calls"
proof (induction calls arbitrary: w)
  case Nil
  show ?case by simp
next
  case (Cons c cs)
  from assms obtain res objects where "fst (h w c) = Inr res"
    and "py_getitem res ''data'' = Inr (JArr objects)"
    and "list_all2 (\<lambda>object t. py_getitem object ''embedding'' = Inr (emb t)) objects (call_texts c)"
    unfolding answers_in_order_def by blast
  then have "response_embeddings (fst (h w c)) = Inr (map emb (call_texts c))"
    by (simp add: response_embeddings_def and_then_def py_iter_def embedding_fields_in_order)
  with Cons.IH show ?case
    by (simp add: fst_call_each_Cons del: call_each.simps)
qed

lemma those_map_Some: "\<forall>x \<in> set xs. f x = Some (g x) \<Longrightarrow> those (map f xs) = Some (map g xs)"
  by (induction xs) simp_all

text \<open>
  With a helper that answers every request in order, and embeddings the result
  constructor accepts, \<^verbatim>\<open>_invoke\<close> calls the helper for every batch and returns the
  validated embeddings of the inputs, in the order of the inputs.
\<close>

lemma invoke_in_order:
  assumes "read_settings int_of_str fmt credentials = Inr cfg"
    and "prepare_inputs est context_size 0 texts \<lparr>inputs = [], indices = [], used_tokens = 0\<rparr>
           = Inr prep"
    and "1 \<le> max_chunks" and "answers_in_order h emb"
    and "\<forall>t \<in> set (inputs prep). validate (emb t) = Some (vec t)"
  shows "invoke int_of_str fmt est get_price validate h context_size max_chunks model
           credentials texts w
         = (Inr \<lparr>result_model = model, result_embeddings = map vec (inputs prep),
                 result_usage = calc_response_usage get_price (used_tokens prep)\<rparr>,
            snd (call_each h w (map (call_of cfg) (chunks_of max_chunks (inputs prep)))))"
proof -
  let ?chunks = "chunks_of max_chunks (inputs prep)"
  let ?calls = "map (call_of cfg) ?chunks"
  let ?answers = "map response_embeddings (fst (call_each h w ?calls))"
  have a: "?answers = map (\<lambda>c. Inr (map emb c)) ?chunks"
    by (simp add: answers_in_order_each [OF assms(4)] o_def call_of_def)
  then have none: "find isl ?answers = None" and all: "up_to_failure ?answers = length ?calls"
    by (simp_all add: find_None_iff up_to_failure_all)
  have "concat (map projr ?answers) = map emb (concat ?chunks)"
    by (simp add: a o_def map_concat)
  then have e: "concat (map projr ?answers) = map emb (inputs prep)"
    by (simp add: chunks_of_props(3) [OF assms(3)])
  have "those (map validate (map emb (inputs prep))) = Some (map vec (inputs prep))"
    using assms(5) by (simp add: those_map_Some o_def)
  then show ?thesis
    unfolding invoke_run [OF assms(1,2,3) refl refl] none all e
    by (simp add: TextEmbeddingResult_def)
qed

lemma invoke_empty:
  assumes "read_settings int_of_str fmt credentials = Inr cfg" and "max_chunks \<noteq> 0"
  shows "invoke int_of_str fmt est get_price validate h context_size max_chunks model
           credentials [] w
     = (Inr \<lparr>result_model = model, result_embeddings = [],
             result_usage = \<lparr>usage_tokens = 0, usage_total_tokens = 0, usage_price = get_price 0\<rparr>\<rparr>,
        w)"
  using assms
  by (simp add: invoke_def py_range_def calc_response_usage_def TextEmbeddingResult_def)

lemma example_helper_in_order: "answers_in_order example_helper example_embedding"
  by (simp add: answers_in_order_def example_helper_def py_getitem_def list_all2_map1
      list_all2_same)

lemma example_validate_embedding:
  "example_validate (example_embedding t) = Some [of_nat (length t), 1 / 2]"
  by (simp add: example_validate_def example_embedding_def float_of_json_def)

lemma example_settings:
  "read_settings (\<lambda>s. None) (\<lambda>v. []) example_credentials
     = Inr \<lparr>server_url = ''http://tei:8080'', max_retries = 3, invoke_timeout = 60,
            headers = [(''Content-Type'', ''application/json''), (''Authorization'', ''Bearer k'')]\<rparr>"
  by (simp add: read_settings_def example_credentials_def removesuffix_slash_def and_then_def
      py_int_def get_or_def DEFAULT_MAX_RETRIES_def DEFAULT_INVOKE_TIMEOUT_def py_truthy_def
      bearer_def)

text \<open>
  The settings of lines 61 to 64 are read before anything else, and reading them can
  fail: with no \<^verbatim>\<open>server_url\<close> among the credentials line 61 raises
  \<^verbatim>\<open>KeyError\<close>, and with a \<^verbatim>\<open>max_retries\<close> that \<^verbatim>\<open>int\<close> does not parse line 63
  raises \<^verbatim>\<open>ValueError\<close>; no call is made.
\<close>

lemma invoke_without_server_url:
  "map_of credentials ''server_url'' = None \<Longrightarrow>
   invoke int_of_str fmt est get_price validate h context_size max_chunks model credentials texts w
     = (Inl (KeyError (JStr ''server_url'')), w)"
  by (simp add: invoke_def read_settings_def)

lemma invoke_unparsed_max_retries:
  "invoke (\<lambda>s. None) fmt est get_price validate h context_size max_chunks model
     [(''server_url'', JStr ''http://tei''), (''max_retries'', JStr ''three'')] texts w
     = (Inl ValueError, w)"
  by (simp add: invoke_def read_settings_def removesuffix_slash_def and_then_def py_int_def
      get_or_def py_truthy_def)

text \<open>An exception of the helper that is an instance of a subclass of
  \<^verbatim>\<open>RuntimeError\<close> is converted as one of the class itself is.\<close>

lemma except_runtime_error_subclasses:
  "except_runtime_error (RuntimeError s) = InvokeServerUnavailableError s"
  "except_runtime_error (NotImplementedError s) = InvokeServerUnavailableError s"
  "except_runtime_error (RecursionError s) = InvokeServerUnavailableError s"
  "except_runtime_error (RuntimeErrorSubclass c s) = InvokeServerUnavailableError s"
  "except_runtime_error (KeyError k) = KeyError k"
  "except_runtime_error (OtherException d) = OtherException d"
  by (simp_all add: except_runtime_error_def)

text \<open>When the server answers with strings where embeddings are expected, the request
  is made and the result constructor then rejects the embeddings.\<close>

lemma invoke_rejects_string_embeddings:
  "invoke (\<lambda>s. None) (\<lambda>v. []) length (\<lambda>n. ()) example_validate string_helper 512 2 ''tei''
     example_credentials [''a''] 0
   = (Inl ValidationError, 1)"
  by (simp add: invoke_def example_settings truncate_text_def py_range_def string_helper_def
      response_embeddings_def and_then_def py_getitem_def py_iter_def TextEmbeddingResult_def
      example_validate_def call_of_def)

text \<open>
  C1, as the code has it. Let the settings of lines 61 to 68 be read without error, and
  let the context size and the batch size \<open>M\<close> (\<open>max_chunks\<close>) be at least 1. Then the
  truncation loop finishes and leaves one input per text, in the order of the texts, each
  the text as \<open>truncate_text\<close> leaves it. The batches of lines 88 to 91 number
  \<open>\<lceil>N / M\<rceil>\<close>, written \<open>(N + M - 1) div M\<close>; each holds between 1 and \<open>M\<close> inputs;
  their concatenation is the list of inputs, in order. \<^verbatim>\<open>_invoke\<close> calls the helper
  once for each batch, with the batch and the settings, one call after the other in the
  order of the batches, from the first batch up to and including the first whose call
  raises or whose response cannot be read, and makes no other call: the state it leaves
  the helper's world in is the state those calls, made in sequence, leave it in. When a
  batch fails \<^verbatim>\<open>_invoke\<close> raises the exception of that batch, an instance of
  \<^verbatim>\<open>RuntimeError\<close> as \<^verbatim>\<open>InvokeServerUnavailableError\<close>; when none fails it
  returns what the result constructor makes of the concatenation, in the order of the
  batches, of the embeddings of the responses. With a helper that answers every request in
  order and embeddings the constructor accepts, that is one embedding per input, in the
  order of the texts, after one call for each batch. For no texts at all \<^verbatim>\<open>_invoke\<close>
  leaves the helper's world as it was, having made no call, and returns no embeddings and a
  usage of zero tokens.
\<close>

theorem invoke_batches:
  assumes "read_settings int_of_str fmt credentials = Inr cfg"
    and "1 \<le> context_size" and "1 \<le> max_chunks"
  shows
    "\<exists>prep.
       prepare_inputs est context_size 0 texts \<lparr>inputs = [], indices = [], used_tokens = 0\<rparr>
         = Inr prep \<and>
       list_all2 (\<lambda>input t. truncate_text est context_size t = Inr (input, est t))
         (inputs prep) texts \<and>
       (let chunks = chunks_of max_chunks (inputs prep);
            calls = map (call_of cfg) chunks;
            answers = map response_embeddings (fst (call_each h w calls));
            run = invoke int_of_str fmt est get_price validate h context_size max_chunks model
                    credentials texts w
        in length chunks = (length texts + nat max_chunks - 1) div nat max_chunks \<and>
           (\<forall>c \<in> set chunks. 0 < length c \<and> int (length c) \<le> max_chunks) \<and>
           concat chunks = inputs prep \<and>
           snd run = snd (call_each h w (take (up_to_failure answers) calls)) \<and>
           fst run =
             (case find isl answers of
                Some a \<Rightarrow> Inl (except_runtime_error (projl a))
              | None \<Rightarrow> TextEmbeddingResult validate model (concat (map projr answers))
                          (calc_response_usage get_price (used_tokens prep))) \<and>
           (answers_in_order h emb \<and> (\<forall>t \<in> set (inputs prep). validate (emb t) = Some (vec t))
              \<longrightarrow> run = (Inr \<lparr>result_model = model, result_embeddings = map vec (inputs prep),
                              result_usage = calc_response_usage get_price (used_tokens prep)\<rparr>,
                         snd (call_each h w calls))) \<and>
           (texts = [] \<longrightarrow>
              run = (Inr \<lparr>result_model = model, result_embeddings = [],
                          result_usage = \<lparr>usage_tokens = 0, usage_total_tokens = 0,
                                          usage_price = get_price 0\<rparr>\<rparr>,
                     w)))"
proof -
  from prepare_inputs_total [OF assms(2)] obtain prep where
    prep: "prepare_inputs est context_size 0 texts \<lparr>inputs = [], indices = [], used_tokens = 0\<rparr>
             = Inr prep"
    by blast
  let ?run = "invoke int_of_str fmt est get_price validate h context_size max_chunks model
                credentials texts w"
  let ?chunks = "chunks_of max_chunks (inputs prep)"
  let ?calls = "map (call_of cfg) ?chunks"
  let ?answers = "map response_embeddings (fst (call_each h w ?calls))"
  note start = prepare_inputs_start [OF prep]
  note ch = chunks_of_props [OF assms(3), of "inputs prep"]
  note run = invoke_run [OF assms(1) prep assms(3) refl refl, of get_price validate h model w]
  have n: "length ?chunks = (length texts + nat max_chunks - 1) div nat max_chunks"
    by (simp only: ch(1) start(2))
  have w: "snd ?run = snd (call_each h w (take (up_to_failure ?answers) ?calls))"
    by (simp only: run snd_conv)
  have r: "fst ?run =
             (case find isl ?answers of
                Some a \<Rightarrow> Inl (except_runtime_error (projl a))
              | None \<Rightarrow> TextEmbeddingResult validate model (concat (map projr ?answers))
                          (calc_response_usage get_price (used_tokens prep)))"
    by (simp only: run fst_conv)
  have ord: "?run = (Inr \<lparr>result_model = model, result_embeddings = map vec (inputs prep),
                          result_usage = calc_response_usage get_price (used_tokens prep)\<rparr>,
                     snd (call_each h w ?calls))"
    if "answers_in_order h emb" and "\<forall>t \<in> set (inputs prep). validate (emb t) = Some (vec t)"
    by (rule invoke_in_order [OF assms(1) prep assms(3) that])
  have none: "?run = (Inr \<lparr>result_model = model, result_embeddings = [],
                          result_usage = \<lparr>usage_tokens = 0, usage_total_tokens = 0,
                                          usage_price = get_price 0\<rparr>\<rparr>,
                     w)" if "texts = []"
    using invoke_empty [OF assms(1), of max_chunks est get_price validate h context_size model w]
      assms(3) that by simp
  from prep start(1) n ch(2,3) w r ord none show ?thesis
    unfolding Let_def by (intro exI [of _ prep]) blast
qed

theorem invoke_batches_witness:
  "invoke (\<lambda>s. None) (\<lambda>v. []) length (\<lambda>n. ()) example_validate example_helper 512 2 ''tei''
     example_credentials [''a'', ''bc'', ''d''] []
     = (Inr \<lparr>result_model = ''tei'',
             result_embeddings = [[1, 1 / 2], [2, 1 / 2], [1, 1 / 2]],
             result_usage = \<lparr>usage_tokens = 4, usage_total_tokens = 4, usage_price = ()\<rparr>\<rparr>,
        [[''a'', ''bc''], [''d'']]) \<and>
   invoke (\<lambda>s. None) (\<lambda>v. []) length (\<lambda>n. ()) example_validate example_helper 512 2 ''tei''
     example_credentials [] []
     = (Inr \<lparr>result_model = ''tei'', result_embeddings = [],
             result_usage = \<lparr>usage_tokens = 0, usage_total_tokens = 0, usage_price = ()\<rparr>\<rparr>,
        []) \<and>
   snd (invoke (\<lambda>s. None) (\<lambda>v. []) length (\<lambda>n. ()) example_validate failing_helper 512 1 ''tei''
     example_credentials [''a'', ''bc'', ''d''] 0) = 1"
proof -
  have prep: "prepare_inputs length 512 0 [''a'', ''bc'', ''d'']
                \<lparr>inputs = [], indices = [], used_tokens = 0\<rparr>
              = Inr \<lparr>inputs = [''a'', ''bc'', ''d''], indices = [0, 1, 2], used_tokens = 4\<rparr>"
    by (simp add: truncate_text_def)
  have chunks: "chunks_of 2 [''a'', ''bc'', ''d''] = [[''a'', ''bc''], [''d'']]"
    "chunks_of 1 [''a'', ''bc'', ''d''] = [[''a''], [''bc''], [''d'']]"
    by (simp_all add: chunks_of_def py_range_def upt_rec)
  from invoke_batches [OF example_settings, where max_chunks = 2 and est = length
        and context_size = 512 and texts = "[''a'', ''bc'', ''d'']" and get_price = "\<lambda>n. ()"
        and h = example_helper and validate = example_validate and model = "''tei''"
        and w = "[]" and emb = example_embedding and vec = "\<lambda>t. [of_nat (length t), 1 / 2]"]
    example_helper_in_order
  have 1: "invoke (\<lambda>s. None) (\<lambda>v. []) length (\<lambda>n. ()) example_validate example_helper 512 2 ''tei''
     example_credentials [''a'', ''bc'', ''d''] []
     = (Inr \<lparr>result_model = ''tei'',
             result_embeddings = [[1, 1 / 2], [2, 1 / 2], [1, 1 / 2]],
             result_usage = \<lparr>usage_tokens = 4, usage_total_tokens = 4, usage_price = ()\<rparr>\<rparr>,
        [[''a'', ''bc''], [''d'']])"
    by (simp add: prep chunks Let_def example_validate_embedding calc_response_usage_def
        example_helper_def call_of_def del: prepare_inputs.simps)
  from invoke_batches [OF example_settings, where max_chunks = 2 and est = length
        and context_size = 512 and texts = "[]" and get_price = "\<lambda>n. ()"
        and h = example_helper and validate = example_validate and model = "''tei''"
        and w = "[]"]
  have 2: "invoke (\<lambda>s. None) (\<lambda>v. []) length (\<lambda>n. ()) example_validate example_helper 512 2 ''tei''
     example_credentials [] []
     = (Inr \<lparr>result_model = ''tei'', result_embeddings = [],
             result_usage = \<lparr>usage_tokens = 0, usage_total_tokens = 0, usage_price = ()\<rparr>\<rparr>,
        [])"
    by (simp add: Let_def)
  from invoke_batches [OF example_settings, where max_chunks = 1 and est = length
        and context_size = 512 and texts = "[''a'', ''bc'', ''d'']" and get_price = "\<lambda>n. ()"
        and h = failing_helper and validate = example_validate and model = "''tei''"
        and w = 0]
  have 3: "snd (invoke (\<lambda>s. None) (\<lambda>v. []) length (\<lambda>n. ()) example_validate failing_helper 512 1
     ''tei'' example_credentials [''a'', ''bc'', ''d''] 0) = 1"
    by (simp add: prep chunks Let_def failing_helper_def response_embeddings_def and_then_def
        up_to_failure_simps del: prepare_inputs.simps)
  from 1 2 3 show ?thesis
    by simp
qed

text \<open>
  C1, as stated: the calls are not one per batch in every invocation, and a result is not
  returned in every invocation. With a helper whose calls fail, two texts and a batch size of 1 make
  two batches, and \<^verbatim>\<open>_invoke\<close> makes one call, the first, and raises
  \<^verbatim>\<open>InvokeServerUnavailableError\<close>. With credentials that have no
  \<^verbatim>\<open>server_url\<close>, \<^verbatim>\<open>_invoke\<close> on no texts raises \<^verbatim>\<open>KeyError\<close> on line 61 and
  returns no result.
\<close>

theorem invoke_stops_at_failed_call:
  "length (chunks_of 1 [''a'', ''b'']) = 2 \<and>
   invoke (\<lambda>s. None) (\<lambda>v. []) length (\<lambda>n. ()) example_validate failing_helper 512 1 ''tei''
     example_credentials [''a'', ''b''] 0
     = (Inl (InvokeServerUnavailableError ''connection refused''), 1) \<and>
   invoke (\<lambda>s. None) (\<lambda>v. []) length (\<lambda>n. ()) example_validate failing_helper 512 1 ''tei''
     [(''api_key'', JStr ''k'')] [] 0
     = (Inl (KeyError (JStr ''server_url'')), 0)"
proof -
  have "length (chunks_of 1 [''a'', ''b'']) = 2"
    by (simp add: chunks_of_def py_range_def)
  moreover
  have "invoke (\<lambda>s. None) (\<lambda>v. []) length (\<lambda>n. ()) example_validate failing_helper 512 1 ''tei''
     example_credentials [''a'', ''b''] 0
     = (Inl (InvokeServerUnavailableError ''connection refused''), 1)"
    by (simp add: invoke_def example_settings truncate_text_def py_range_def upt_rec
        failing_helper_def response_embeddings_def and_then_def except_runtime_error_def)
  moreover
  have "invoke (\<lambda>s. None) (\<lambda>v. []) length (\<lambda>n. ()) example_validate failing_helper 512 1 ''tei''
     [(''api_key'', JStr ''k'')] [] 0
     = (Inl (KeyError (JStr ''server_url'')), 0)"
    by (simp add: invoke_def read_settings_def)
  ultimately show ?thesis
    by simp
qed

text \<open>
  C9. Whenever \<^verbatim>\<open>_invoke\<close> returns a result, its usage reports, as \<^verbatim>\<open>tokens\<close> and as
  \<^verbatim>\<open>total_tokens\<close>, the sum over all the caller's texts of the estimate of each text as
  given, before any truncation. In the example after it a text of 3000 tokens is cut to
  510 for sending; the usage is 3006, the tokens sent are 516.
\<close>

theorem invoke_usage_tokens:
  assumes "fst (invoke int_of_str fmt est get_price validate h context_size max_chunks model
                  credentials texts w) = Inr r"
  shows "usage_tokens (result_usage r) = sum_list (map est texts) \<and>
         usage_total_tokens (result_usage r) = sum_list (map est texts)"
proof (cases "prepare_inputs est context_size 0 texts
                \<lparr>inputs = [], indices = [], used_tokens = 0\<rparr>")
  case (Inl e)
  with assms show ?thesis
    by (simp add: invoke_def split: sum.splits)
next
  case (Inr prep)
  from prepare_inputs_start(3) [OF this] have u: "used_tokens prep = sum_list (map est texts)" .
  from assms Inr have "result_usage r = calc_response_usage get_price (used_tokens prep)"
    by (auto simp: invoke_def TextEmbeddingResult_def
        split: sum.splits prod.splits option.splits)
  then show ?thesis
    by (simp add: calc_response_usage_def u)
qed

lemma truncate_example:
  "truncate_text (\<lambda>t. 3 * length t) 512 (replicate 1000 (CHR ''a''))
     = Inr (replicate 170 (CHR ''a''), 3000)"
  by (simp add: truncate_text_def text_cutoff_def and_then_def int_truediv_def float_of_int_def
      float_mul_def float_round_def round53_def bit_length.simps at_least_pow2_def
      round_half_even_def Let_def int_of_float_def py_slice_to_def)

theorem invoke_usage_tokens_witness:
  "fst (invoke (\<lambda>s. None) (\<lambda>v. []) (\<lambda>t. 3 * length t) (\<lambda>n. ()) example_validate example_helper
          512 8 ''tei'' example_credentials [replicate 1000 (CHR ''a''), ''hi''] [])
     = Inr \<lparr>result_model = ''tei'',
            result_embeddings = [[170, 1 / 2], [2, 1 / 2]],
            result_usage = \<lparr>usage_tokens = 3006, usage_total_tokens = 3006, usage_price = ()\<rparr>\<rparr> \<and>
   sum_list (map (\<lambda>t. 3 * length t) [replicate 170 (CHR ''a''), ''hi'']) = 516"
proof -
  let ?run = "invoke (\<lambda>s. None) (\<lambda>v. []) (\<lambda>t. 3 * length t) (\<lambda>n. ()) example_validate
          example_helper 512 8 ''tei'' example_credentials [replicate 1000 (CHR ''a''), ''hi''] []"
  have pi: "prepare_inputs (\<lambda>t. 3 * length t) 512 0 [replicate 1000 (CHR ''a''), ''hi'']
                \<lparr>inputs = [], indices = [], used_tokens = 0\<rparr>
              = Inr \<lparr>inputs = [replicate 170 (CHR ''a''), ''hi''], indices = [0, 1],
                     used_tokens = 3006\<rparr>"
    by (simp add: truncate_example truncate_text_small)
  have run: "fst ?run = Inr \<lparr>result_model = ''tei'',
            result_embeddings = map (\<lambda>t. [of_nat (length t), 1 / 2])
                                    [replicate 170 (CHR ''a''), ''hi''],
            result_usage = calc_response_usage (\<lambda>n. ()) 3006\<rparr>"
    using invoke_in_order [OF example_settings pi _ example_helper_in_order,
        of 8 example_validate "\<lambda>t. [of_nat (length t), 1 / 2]" "\<lambda>n. ()" "''tei''" "[]"]
    by (simp add: example_validate_embedding)
  from invoke_usage_tokens [OF run] run show ?thesis
    by (simp add: calc_response_usage_def)
qed

end
